theory Spec2Isabelle
  imports Main "HOL-Library.Multiset"
begin

section \<open>Sales controller: data model\<close>

text \<open>
  The controller \<^verbatim>\<open>controllers/salesController.js\<close> works on three collections of a
  document store, reached through the models \<^verbatim>\<open>Sale\<close>, \<^verbatim>\<open>Item\<close> and \<^verbatim>\<open>User\<close>.
  Document identifiers are an abstract type of ids; quantities, stock levels and
  timestamps (milliseconds since the epoch) are integers.
\<close>

type_synonym oid = nat

text \<open>
  Modelled from the spec: the schemas \<^verbatim>\<open>models/Item\<close>, \<^verbatim>\<open>models/Sale\<close> and
  \<^verbatim>\<open>models/User\<close> are not among the sources. The fields are the ones the
  controller reads (\<^verbatim>\<open>item_name\<close>, \<^verbatim>\<open>stock\<close>, \<^verbatim>\<open>supplier\<close>, \<^verbatim>\<open>reorder_level\<close>;
  \<^verbatim>\<open>user_id\<close>, \<^verbatim>\<open>date\<close>, \<^verbatim>\<open>items\<close> with \<^verbatim>\<open>item_id\<close> and \<^verbatim>\<open>quantity\<close>; \<^verbatim>\<open>name\<close>),
  typed as the data model of the specification gives them.
\<close>

record item =
  item_name :: string
  stock :: int
  supplier :: string
  reorder_level :: int

record line_item =
  item_id :: oid
  quantity :: int

record sale =
  user_id :: oid
  date :: int
  items :: "line_item list"

record user =
  name :: string

text \<open>
  The database: items and users are looked up by id only, so they are maps; the sale
  collection is also scanned by the report, so it is a list of documents with their ids.
\<close>

record db =
  itemStore :: "oid \<rightharpoonup> item"
  saleStore :: "(oid \<times> sale) list"
  userStore :: "oid \<rightharpoonup> user"

text \<open>
  Every store call is awaited inside a \<^verbatim>\<open>try\<close> block and may throw (validation or
  cast failure, lost connection). A fault schedule tells, for the k-th store call of a
  request, whether it throws and with which message. A call that throws changes nothing.
\<close>

type_synonym faults = "nat \<Rightarrow> string option"

definition no_faults :: faults where
  "no_faults = (\<lambda>k. None)"

record report_entry =
  entry_id :: oid
  entry_item_name :: string
  totalQuantitySold :: int
  entry_stock :: int
  entry_supplier :: string
  entry_reorder_level :: int
  user_name :: string

datatype body =
    SaleDoc oid sale
  | Message string
  | Report "report_entry list" "report_entry list" "report_entry list"

type_synonym response = "nat \<times> body"

section \<open>Store operations\<close>

text \<open>
  \<^verbatim>\<open>Item.findByIdAndUpdate(id, { $inc: { stock: delta } })\<close>: adds the delta to the stock of
  the item with that id; when no item has the id, nothing is updated and nothing is thrown.
\<close>

definition findByIdAndUpdate_inc :: "oid \<Rightarrow> int \<Rightarrow> (oid \<rightharpoonup> item) \<Rightarrow> (oid \<rightharpoonup> item)" where
  "findByIdAndUpdate_inc i delta m =
     (case m i of
        None \<Rightarrow> m
      | Some it \<Rightarrow> m(i \<mapsto> it\<lparr>stock := stock it + delta\<rparr>))"

text \<open>
  The loop \<^verbatim>\<open>for (const soldItem of sale.items) await Item.findByIdAndUpdate(...)\<close> of
  \<^verbatim>\<open>createSale\<close> (delta \<^verbatim>\<open>-soldItem.quantity\<close>) and of \<^verbatim>\<open>deleteSale\<close> (delta
  \<^verbatim>\<open>soldItem.quantity\<close>). The store calls are numbered from \<open>k\<close>; the first one that
  throws ends the loop, with the updates made so far kept.
\<close>

fun adjust_stock ::
  "faults \<Rightarrow> nat \<Rightarrow> (line_item \<Rightarrow> int) \<Rightarrow> line_item list \<Rightarrow> (oid \<rightharpoonup> item)
     \<Rightarrow> string option \<times> (oid \<rightharpoonup> item)" where
  "adjust_stock \<phi> k delta [] m = (None, m)"
| "adjust_stock \<phi> k delta (soldItem # rest) m =
     (case \<phi> k of
        Some e \<Rightarrow> (Some e, m)
      | None \<Rightarrow>
          adjust_stock \<phi> (Suc k) delta rest
            (findByIdAndUpdate_inc (item_id soldItem) (delta soldItem) m))"

text \<open>
  \<^verbatim>\<open>new Sale(req.body)\<close>: the request body gives the user, the line items and possibly a
  date; the date defaults to the time of creation.
\<close>

record sale_body =
  body_user_id :: oid
  body_date :: "int option"
  body_items :: "line_item list"

definition new_Sale :: "int \<Rightarrow> sale_body \<Rightarrow> sale" where
  "new_Sale clock b =
     \<lparr>user_id = body_user_id b,
      date = (case body_date b of None \<Rightarrow> clock | Some t \<Rightarrow> t),
      items = body_items b\<rparr>"

definition duplicate_key :: string where
  "duplicate_key = ''E11000 duplicate key error''"

text \<open>
  \<^verbatim>\<open>sale.save()\<close>: inserts the document under its generated id. It throws when the
  schedule says so (a validation error, say) and when the id is already taken.
\<close>

definition save ::
  "string option \<Rightarrow> oid \<Rightarrow> sale \<Rightarrow> (oid \<times> sale) list \<Rightarrow> string + (oid \<times> sale) list" where
  "save f sid s sales =
     (case f of
        Some e \<Rightarrow> Inl e
      | None \<Rightarrow>
          (if map_of sales sid \<noteq> None then Inl duplicate_key
           else Inr (sales @ [(sid, s)])))"

text \<open>\<^verbatim>\<open>Sale.findByIdAndDelete(id)\<close>: removes the sale with that id and returns it, or
  returns null when there is none.\<close>

definition findByIdAndDelete ::
  "string option \<Rightarrow> oid \<Rightarrow> (oid \<times> sale) list
     \<Rightarrow> string + (sale option \<times> (oid \<times> sale) list)" where
  "findByIdAndDelete f sid sales =
     (case f of
        Some e \<Rightarrow> Inl e
      | None \<Rightarrow> Inr (map_of sales sid, filter (\<lambda>p. fst p \<noteq> sid) sales))"

text \<open>
  \<^verbatim>\<open>Sale.findByIdAndUpdate(id, req.body, { new: true })\<close>: the fields present in the body
  replace those of the stored sale; the updated document is returned, or null when no sale
  has the id.
\<close>

record sale_update =
  update_user_id :: "oid option"
  update_date :: "int option"
  update_items :: "line_item list option"

definition apply_update :: "sale_update \<Rightarrow> sale \<Rightarrow> sale" where
  "apply_update u s =
     \<lparr>user_id = (case update_user_id u of None \<Rightarrow> user_id s | Some x \<Rightarrow> x),
      date = (case update_date u of None \<Rightarrow> date s | Some x \<Rightarrow> x),
      items = (case update_items u of None \<Rightarrow> items s | Some x \<Rightarrow> x)\<rparr>"

definition findByIdAndUpdate ::
  "string option \<Rightarrow> oid \<Rightarrow> sale_update \<Rightarrow> (oid \<times> sale) list
     \<Rightarrow> string + (sale option \<times> (oid \<times> sale) list)" where
  "findByIdAndUpdate f sid u sales =
     (case f of
        Some e \<Rightarrow> Inl e
      | None \<Rightarrow>
          (case map_of sales sid of
             None \<Rightarrow> Inr (None, sales)
           | Some s \<Rightarrow>
               Inr (Some (apply_update u s),
                    map (\<lambda>p. if fst p = sid then (sid, apply_update u s) else p) sales)))"

section \<open>Handlers: create, update, delete\<close>

text \<open>
  \<^verbatim>\<open>createSale\<close>: save the sale, decrement the stock of each line item, answer 201 with
  the sale; whatever is thrown on the way is answered with 400 and its message. The
  generated id and the clock are inputs.
\<close>

definition createSale :: "faults \<Rightarrow> oid \<Rightarrow> int \<Rightarrow> sale_body \<Rightarrow> db \<Rightarrow> response \<times> db" where
  "createSale \<phi> sid clock b d =
     (let s = new_Sale clock b in
      case save (\<phi> 0) sid s (saleStore d) of
        Inl e \<Rightarrow> ((400, Message e), d)
      | Inr sales' \<Rightarrow>
          (case adjust_stock \<phi> 1 (\<lambda>soldItem. - quantity soldItem) (items s) (itemStore d) of
             (Some e, m) \<Rightarrow> ((400, Message e), d\<lparr>itemStore := m, saleStore := sales'\<rparr>)
           | (None, m) \<Rightarrow> ((201, SaleDoc sid s), d\<lparr>itemStore := m, saleStore := sales'\<rparr>)))"

text \<open>\<^verbatim>\<open>updateSale\<close>: 404 when the sale is missing, 200 with the updated sale otherwise,
  400 for anything thrown.\<close>

definition updateSale :: "faults \<Rightarrow> oid \<Rightarrow> sale_update \<Rightarrow> db \<Rightarrow> response \<times> db" where
  "updateSale \<phi> sid u d =
     (case findByIdAndUpdate (\<phi> 0) sid u (saleStore d) of
        Inl e \<Rightarrow> ((400, Message e), d)
      | Inr (None, sales') \<Rightarrow> ((404, Message ''Sale not found''), d\<lparr>saleStore := sales'\<rparr>)
      | Inr (Some s, sales') \<Rightarrow> ((200, SaleDoc sid s), d\<lparr>saleStore := sales'\<rparr>))"

text \<open>
  \<^verbatim>\<open>deleteSale\<close>: 404 when the sale is missing; otherwise the stock of each line item of
  the removed sale is incremented and the answer is 200; 500 for anything thrown.
\<close>

definition deleteSale :: "faults \<Rightarrow> oid \<Rightarrow> db \<Rightarrow> response \<times> db" where
  "deleteSale \<phi> sid d =
     (case findByIdAndDelete (\<phi> 0) sid (saleStore d) of
        Inl e \<Rightarrow> ((500, Message e), d)
      | Inr (None, sales') \<Rightarrow> ((404, Message ''Sale not found''), d\<lparr>saleStore := sales'\<rparr>)
      | Inr (Some s, sales') \<Rightarrow>
          (case adjust_stock \<phi> 1 (\<lambda>soldItem. quantity soldItem) (items s) (itemStore d) of
             (Some e, m) \<Rightarrow> ((500, Message e), d\<lparr>itemStore := m, saleStore := sales'\<rparr>)
           | (None, m) \<Rightarrow>
               ((200, Message ''Sale deleted''), d\<lparr>itemStore := m, saleStore := sales'\<rparr>)))"

section \<open>Dates\<close>

text \<open>
  The report reads the clock with \<^verbatim>\<open>new Date()\<close> and steps back with \<^verbatim>\<open>setDate\<close>,
  \<^verbatim>\<open>setMonth\<close> and \<^verbatim>\<open>setFullYear\<close>, which work on the calendar fields of the date in
  local time. A date is given by the fields the handler reads back (\<^verbatim>\<open>getFullYear\<close>,
  \<^verbatim>\<open>getMonth\<close> from 0 to 11, \<^verbatim>\<open>getDate\<close> from 1) and its time within the day in
  milliseconds; its time value follows the language standard's \<^verbatim>\<open>MakeDay\<close> and
  \<^verbatim>\<open>MakeDate\<close>. The server's local time is taken to be UTC: an offset that is the same
  all year would shift the clock and the three bounds alike, and daylight saving is not
  modelled.
\<close>

record jsdate =
  getFullYear :: int
  getMonth :: int
  getDate :: int
  timeWithinDay :: int

definition msPerDay :: int where
  "msPerDay = 86400000"

definition isLeapYear :: "int \<Rightarrow> bool" where
  "isLeapYear y = ((y mod 4 = 0 \<and> y mod 100 \<noteq> 0) \<or> y mod 400 = 0)"

text \<open>\<^verbatim>\<open>DayFromYear\<close>: the day number of January 1st, counted from 1970.\<close>

definition dayFromYear :: "int \<Rightarrow> int" where
  "dayFromYear y =
     365 * (y - 1970) + (y - 1969) div 4 - (y - 1901) div 100 + (y - 1601) div 400"

text \<open>The day within the year on which month \<open>m\<close> (0 to 11) starts.\<close>

definition monthStart :: "bool \<Rightarrow> int \<Rightarrow> int" where
  "monthStart leap m =
     (if m = 0 then 0
      else if m = 1 then 31
      else (if leap then 1 else 0) +
        (if m = 2 then 59 else if m = 3 then 90 else if m = 4 then 120
         else if m = 5 then 151 else if m = 6 then 181 else if m = 7 then 212
         else if m = 8 then 243 else if m = 9 then 273 else if m = 10 then 304
         else 334))"

text \<open>
  \<^verbatim>\<open>MakeDay(year, month, date)\<close>: months outside 0 to 11 carry into the year, and the date
  is counted from the first of the month, so it may run over the end of the month or lie
  before its start.
\<close>

definition makeDay :: "int \<Rightarrow> int \<Rightarrow> int \<Rightarrow> int" where
  "makeDay year month dt =
     (let ym = year + month div 12; mn = month mod 12
      in dayFromYear ym + monthStart (isLeapYear ym) mn + dt - 1)"

definition makeDate :: "int \<Rightarrow> int \<Rightarrow> int" where
  "makeDate day time = day * msPerDay + time"

definition valueOf :: "jsdate \<Rightarrow> int" where
  "valueOf d = makeDate (makeDay (getFullYear d) (getMonth d) (getDate d)) (timeWithinDay d)"

text \<open>The time values after \<^verbatim>\<open>d.setDate(dt)\<close>, \<^verbatim>\<open>d.setMonth(month)\<close> and
  \<^verbatim>\<open>d.setFullYear(year)\<close>: one field replaced, the others kept.\<close>

definition setDate :: "jsdate \<Rightarrow> int \<Rightarrow> int" where
  "setDate d dt = makeDate (makeDay (getFullYear d) (getMonth d) dt) (timeWithinDay d)"

definition setMonth :: "jsdate \<Rightarrow> int \<Rightarrow> int" where
  "setMonth d month = makeDate (makeDay (getFullYear d) month (getDate d)) (timeWithinDay d)"

definition setFullYear :: "jsdate \<Rightarrow> int \<Rightarrow> int" where
  "setFullYear d year = makeDate (makeDay year (getMonth d) (getDate d)) (timeWithinDay d)"

text \<open>The lower bounds of the three windows, as the handler computes them from \<open>now\<close>.\<close>

definition pastWeek :: "jsdate \<Rightarrow> int" where
  "pastWeek now = setDate now (getDate now - 7)"

definition pastMonth :: "jsdate \<Rightarrow> int" where
  "pastMonth now = setMonth now (getMonth now - 1)"

definition pastYear :: "jsdate \<Rightarrow> int" where
  "pastYear now = setFullYear now (getFullYear now - 1)"

section \<open>The report of frequently sold items\<close>

text \<open>
  \<^verbatim>\<open>{ $unwind: "$items" }\<close>: one document per line item of each sale, with the sale's
  other fields; a sale with no line item gives none.
\<close>

record unwound =
  u_id :: oid
  u_user_id :: oid
  u_date :: int
  u_items :: line_item

definition unwind :: "(oid \<times> sale) list \<Rightarrow> unwound list" where
  "unwind sales =
     concat (map (\<lambda>(sid, s).
       map (\<lambda>li. \<lparr>u_id = sid, u_user_id = user_id s, u_date = date s, u_items = li\<rparr>) (items s))
       sales)"

text \<open>\<^verbatim>\<open>{ $match: { date: { $gte: bound } } }\<close>.\<close>

definition match_gte :: "int \<Rightarrow> unwound list \<Rightarrow> unwound list" where
  "match_gte bound docs = filter (\<lambda>doc. bound \<le> u_date doc) docs"

text \<open>
  \<^verbatim>\<open>$group\<close> with \<^verbatim>\<open>_id: { item_id: "$items.item_id", user_id: "$user_id" }\<close> and
  \<^verbatim>\<open>totalQuantitySold: { $sum: "$items.quantity" }\<close>: one group per pair of ids, each with
  the sum of the quantities of its documents. The store fixes no order of the groups; here
  they stand in the order in which their first document is met.
\<close>

type_synonym group_key = "oid \<times> oid"

definition group_id :: "unwound \<Rightarrow> group_key" where
  "group_id doc = (item_id (u_items doc), u_user_id doc)"

fun accumulate :: "group_key \<Rightarrow> int \<Rightarrow> (group_key \<times> int) list \<Rightarrow> (group_key \<times> int) list" where
  "accumulate k q [] = [(k, 0 + q)]"
| "accumulate k q ((k', acc) # groups) =
     (if k' = k then (k', acc + q) # groups else (k', acc) # accumulate k q groups)"

definition group_sum :: "unwound list \<Rightarrow> (group_key \<times> int) list" where
  "group_sum docs =
     foldl (\<lambda>groups doc. accumulate (group_id doc) (quantity (u_items doc)) groups) [] docs"

text \<open>The \<^verbatim>\<open>$project\<close> stage maps each group to a row with the two ids and the total.\<close>

record row =
  row_item_id :: oid
  row_user_id :: oid
  row_total :: int

definition project_row :: "group_key \<times> int \<Rightarrow> row" where
  "project_row g = \<lparr>row_item_id = fst (fst g), row_user_id = snd (fst g), row_total = snd g\<rparr>"

text \<open>One facet: match, group, project. The three facets run over the same documents.\<close>

definition facet :: "int \<Rightarrow> unwound list \<Rightarrow> row list" where
  "facet bound docs = map project_row (group_sum (match_gte bound docs))"

definition aggregate :: "jsdate \<Rightarrow> (oid \<times> sale) list \<Rightarrow> row list \<times> row list \<times> row list" where
  "aggregate now sales =
     (let docs = unwind sales
      in (facet (pastWeek now) docs, facet (pastMonth now) docs, facet (pastYear now) docs))"

text \<open>
  \<^verbatim>\<open>Sale.populate(rows, populateOptions)\<close>: the item id of a row is replaced by the item
  with that id and the user id by the user, each by null when the store has no such record.
\<close>

record populated =
  p_item :: "(oid \<times> item) option"
  p_user :: "user option"
  p_total :: int

definition populate_row :: "db \<Rightarrow> row \<Rightarrow> populated" where
  "populate_row d r =
     \<lparr>p_item = map_option (Pair (row_item_id r)) (itemStore d (row_item_id r)),
      p_user = userStore d (row_user_id r),
      p_total = row_total r\<rparr>"

definition populate :: "db \<Rightarrow> row list \<Rightarrow> populated list" where
  "populate d rows = map (populate_row d) rows"

text \<open>The message of the error thrown when \<^verbatim>\<open>item.item_id._id\<close> is read on null.\<close>

definition null_deref :: string where
  "null_deref = ''Cannot read properties of null (reading '' @ [CHR 39] @ ''_id'' @ [CHR 39] @ '')''"

text \<open>
  One step of \<^verbatim>\<open>formatResults\<close>. Reading \<^verbatim>\<open>item.item_id._id\<close> throws when the item is
  null. \<^verbatim>\<open>item.user_id?.name || "Unknown"\<close> is the user's name unless the user is null or
  the name is falsy, which for a string means empty.
\<close>

definition format_entry :: "populated \<Rightarrow> string + report_entry" where
  "format_entry r =
     (case p_item r of
        None \<Rightarrow> Inl null_deref
      | Some (i, it) \<Rightarrow>
          Inr \<lparr>entry_id = i,
               entry_item_name = item_name it,
               totalQuantitySold = p_total r,
               entry_stock = stock it,
               entry_supplier = supplier it,
               entry_reorder_level = reorder_level it,
               user_name =
                 (case p_user r of
                    None \<Rightarrow> ''Unknown''
                  | Some u \<Rightarrow> if name u = [] then ''Unknown'' else name u)\<rparr>)"

fun formatResults :: "populated list \<Rightarrow> string + report_entry list" where
  "formatResults [] = Inr []"
| "formatResults (r # results) =
     (case format_entry r of
        Inl e \<Rightarrow> Inl e
      | Inr x \<Rightarrow>
          (case formatResults results of
             Inl e \<Rightarrow> Inl e
           | Inr xs \<Rightarrow> Inr (x # xs)))"

text \<open>
  \<^verbatim>\<open>getFrequentlySoldItems\<close>: the aggregation is store call 0 and the three populate calls
  are store calls 1 to 3; then the three lists are formatted, weekly first. Anything thrown
  is answered with 500 and its message. The handler writes nothing.
\<close>

definition getFrequentlySoldItems :: "faults \<Rightarrow> jsdate \<Rightarrow> db \<Rightarrow> response" where
  "getFrequentlySoldItems \<phi> now d =
     (case \<phi> 0 of
        Some e \<Rightarrow> (500, Message e)
      | None \<Rightarrow>
          (case aggregate now (saleStore d) of (weekly, monthly, yearly) \<Rightarrow>
           (case \<phi> 1 of Some e \<Rightarrow> (500, Message e) | None \<Rightarrow>
           (case \<phi> 2 of Some e \<Rightarrow> (500, Message e) | None \<Rightarrow>
           (case \<phi> 3 of Some e \<Rightarrow> (500, Message e) | None \<Rightarrow>
           (case formatResults (populate d weekly) of Inl e \<Rightarrow> (500, Message e) | Inr w \<Rightarrow>
           (case formatResults (populate d monthly) of Inl e \<Rightarrow> (500, Message e) | Inr m \<Rightarrow>
           (case formatResults (populate d yearly) of Inl e \<Rightarrow> (500, Message e) | Inr y \<Rightarrow>
              (200, Report w m y)))))))))"

section \<open>Auxiliary definitions\<close>

text \<open>The stock loop without faults: the deltas of the line items applied in order.\<close>

definition apply_deltas :: "(line_item \<Rightarrow> int) \<Rightarrow> line_item list \<Rightarrow> (oid \<rightharpoonup> item) \<Rightarrow> (oid \<rightharpoonup> item)" where
  "apply_deltas delta xs m = fold (\<lambda>li. findByIdAndUpdate_inc (item_id li) (delta li)) xs m"

text \<open>A fault schedule with a single throwing store call.\<close>

definition fault_at :: "nat \<Rightarrow> string \<Rightarrow> faults" where
  "fault_at n e = (\<lambda>k. if k = n then Some e else None)"

text \<open>One step of the grouping: a document is added to the group of its key.\<close>

abbreviation (input) step :: "(group_key \<times> int) list \<Rightarrow> unwound \<Rightarrow> (group_key \<times> int) list" where
  "step \<equiv> (\<lambda>groups doc. accumulate (group_id doc) (quantity (u_items doc)) groups)"

text \<open>The groups of one window over a sale history, before projection.\<close>

definition window_groups :: "int \<Rightarrow> (oid \<times> sale) list \<Rightarrow> (group_key \<times> int) list" where
  "window_groups bound sales = group_sum (match_gte bound (unwind sales))"

text \<open>The total of a group, 0 when the key has no group.\<close>

definition total_in :: "(group_key \<times> int) list \<Rightarrow> group_key \<Rightarrow> int" where
  "total_in groups k = (case map_of groups k of None \<Rightarrow> 0 | Some t \<Rightarrow> t)"

text \<open>
  The total that the rows of a window give for an item and a user: the sum of the totals of
  the rows with these two ids, 0 when there is none.
\<close>

definition total_of_rows :: "row list \<Rightarrow> oid \<Rightarrow> oid \<Rightarrow> int" where
  "total_of_rows rows i u =
     (\<Sum>r \<leftarrow> rows. if row_item_id r = i \<and> row_user_id r = u then row_total r else 0)"

text \<open>
  The quantity sold of an item by a user since a bound, read off the sale history directly:
  the sum, over the sales of that user dated at or after the bound, of the quantities of
  their line items for that item.
\<close>

definition quantity_sold :: "int \<Rightarrow> (oid \<times> sale) list \<Rightarrow> group_key \<Rightarrow> int" where
  "quantity_sold bound sales k =
     (\<Sum>(sid, s) \<leftarrow> sales.
        if bound \<le> date s \<and> user_id s = snd k
        then (\<Sum>li \<leftarrow> items s. if item_id li = fst k then quantity li else 0)
        else 0)"

subsection \<open>A small shop\<close>

text \<open>Items A (stock 10) and B (stock 5), one user, no sale yet; a sale of 3 A and 2 B;
  a sale with a line item for an item that does not exist.\<close>

definition itemA :: item where
  "itemA = \<lparr>item_name = ''A'', stock = 10, supplier = ''S'', reorder_level = 2\<rparr>"

definition itemB :: item where
  "itemB = \<lparr>item_name = ''B'', stock = 5, supplier = ''T'', reorder_level = 1\<rparr>"

definition body0 :: sale_body where
  "body0 = \<lparr>body_user_id = 7, body_date = None,
     body_items = [\<lparr>item_id = 1, quantity = 3\<rparr>, \<lparr>item_id = 2, quantity = 2\<rparr>]\<rparr>"

definition db0 :: db where
  "db0 = \<lparr>itemStore = [1 \<mapsto> itemA, 2 \<mapsto> itemB], saleStore = [], userStore = [7 \<mapsto> \<lparr>name = ''Ana''\<rparr>]\<rparr>"

definition body_missing :: sale_body where
  "body_missing = \<lparr>body_user_id = 7, body_date = Some 50,
     body_items = [\<lparr>item_id = 1, quantity = 3\<rparr>, \<lparr>item_id = 9, quantity = 4\<rparr>]\<rparr>"

text \<open>
  A clock reading of 15 June 2024, noon; sales of item A dated 3 days and 40 days before
  it, by user 7 (Ana) and by user 8, who has no user record; a sale of an item that does not
  exist; the report entry of item A.
\<close>

definition now0 :: jsdate where
  "now0 = \<lparr>getFullYear = 2024, getMonth = 5, getDate = 15, timeWithinDay = 43200000\<rparr>"

definition sale3 :: sale where
  "sale3 = \<lparr>user_id = 7, date = valueOf now0 - 3 * msPerDay,
     items = [\<lparr>item_id = 1, quantity = 4\<rparr>]\<rparr>"

definition sale3_other :: sale where
  "sale3_other = \<lparr>user_id = 8, date = valueOf now0 - 3 * msPerDay,
     items = [\<lparr>item_id = 1, quantity = 2\<rparr>]\<rparr>"

definition sale40 :: sale where
  "sale40 = \<lparr>user_id = 7, date = valueOf now0 - 40 * msPerDay,
     items = [\<lparr>item_id = 1, quantity = 4\<rparr>]\<rparr>"

definition sale_dangling :: sale where
  "sale_dangling = \<lparr>user_id = 7, date = valueOf now0 - 3 * msPerDay,
     items = [\<lparr>item_id = 9, quantity = 1\<rparr>]\<rparr>"

definition entryA :: "int \<Rightarrow> string \<Rightarrow> report_entry" where
  "entryA q u = \<lparr>entry_id = 1, entry_item_name = ''A'', totalQuantitySold = q, entry_stock = 10,
     entry_supplier = ''S'', entry_reorder_level = 2, user_name = u\<rparr>"

definition db_report :: db where
  "db_report = db0\<lparr>saleStore := [(1, sale3), (2, sale3_other)]\<rparr>"

lemmas example_defs = body0_def db0_def itemA_def itemB_def no_faults_def fault_at_def

lemmas handler_defs = createSale_def deleteSale_def save_def new_Sale_def
  findByIdAndDelete_def findByIdAndUpdate_inc_def Let_def

lemmas date_defs = pastWeek_def pastMonth_def pastYear_def setDate_def setMonth_def
  setFullYear_def valueOf_def makeDate_def makeDay_def dayFromYear_def monthStart_def
  isLeapYear_def msPerDay_def now0_def

lemmas sale_defs = sale3_def sale3_other_def sale40_def sale_dangling_def entryA_def

section \<open>Stock reconciliation\<close>

lemma inc_commute:
  "findByIdAndUpdate_inc i a (findByIdAndUpdate_inc j b m) =
   findByIdAndUpdate_inc j b (findByIdAndUpdate_inc i a m)"
  by (auto simp: findByIdAndUpdate_inc_def fun_upd_twist split: option.splits)

lemma inc_cancel:
  "findByIdAndUpdate_inc i a (findByIdAndUpdate_inc i (- a) m) = m"
  by (auto simp: findByIdAndUpdate_inc_def split: option.splits)

lemma inc_missing: "m i = None \<Longrightarrow> findByIdAndUpdate_inc i a m = m"
  by (simp add: findByIdAndUpdate_inc_def)

lemma inc_other: "j \<noteq> i \<Longrightarrow> findByIdAndUpdate_inc i a m j = m j"
  by (simp add: findByIdAndUpdate_inc_def split: option.splits)

lemma inc_same: "m i = Some it \<Longrightarrow> findByIdAndUpdate_inc i a m i = Some (it\<lparr>stock := stock it + a\<rparr>)"
  by (simp add: findByIdAndUpdate_inc_def)

lemma adjust_stock_ok:
  "(\<forall>j < length xs. \<phi> (k + j) = None) \<Longrightarrow>
   adjust_stock \<phi> k delta xs m = (None, apply_deltas delta xs m)"
proof (induction xs arbitrary: k m)
  case Nil
  then show ?case by (simp add: apply_deltas_def)
next
  case (Cons x xs)
  have "\<phi> k = None" using Cons.prems by force
  moreover have "\<forall>j < length xs. \<phi> (Suc k + j) = None"
    using Cons.prems by force
  ultimately show ?case using Cons.IH[of "Suc k"] by (simp add: apply_deltas_def)
qed

lemma adjust_stock_success:
  "adjust_stock \<phi> k delta xs m = (None, m') \<Longrightarrow> m' = apply_deltas delta xs m"
  by (induction xs arbitrary: k m) (auto simp: apply_deltas_def split: option.splits)

lemma apply_deltas_inc_commute:
  "apply_deltas delta xs (findByIdAndUpdate_inc i a m) =
   findByIdAndUpdate_inc i a (apply_deltas delta xs m)"
proof (induction xs arbitrary: m)
  case Nil
  then show ?case by (simp add: apply_deltas_def)
next
  case (Cons x xs)
  then show ?case by (simp add: apply_deltas_def inc_commute)
qed

lemma apply_deltas_inverse:
  "apply_deltas quantity xs (apply_deltas (\<lambda>li. - quantity li) xs m) = m"
proof (induction xs arbitrary: m)
  case Nil
  then show ?case by (simp add: apply_deltas_def)
next
  case (Cons x xs)
  have "apply_deltas quantity (x # xs) (apply_deltas (\<lambda>li. - quantity li) (x # xs) m)
      = apply_deltas quantity xs (findByIdAndUpdate_inc (item_id x) (quantity x)
          (apply_deltas (\<lambda>li. - quantity li) xs (findByIdAndUpdate_inc (item_id x) (- quantity x) m)))"
    by (simp add: apply_deltas_def)
  also have "\<dots> = apply_deltas quantity xs (apply_deltas (\<lambda>li. - quantity li) xs
          (findByIdAndUpdate_inc (item_id x) (quantity x) (findByIdAndUpdate_inc (item_id x) (- quantity x) m)))"
    by (simp add: apply_deltas_inc_commute)
  also have "\<dots> = m" by (simp add: inc_cancel Cons.IH)
  finally show ?case .
qed

lemma apply_deltas_perm:
  "mset xs = mset ys \<Longrightarrow> apply_deltas delta xs = apply_deltas delta ys"
proof -
  assume eq: "mset xs = mset ys"
  have "fold (\<lambda>li. findByIdAndUpdate_inc (item_id li) (delta li)) xs
      = fold (\<lambda>li. findByIdAndUpdate_inc (item_id li) (delta li)) ys"
    by (rule fold_multiset_equiv[OF _ eq]) (simp add: fun_eq_iff inc_commute)
  then show ?thesis by (simp add: apply_deltas_def fun_eq_iff)
qed

lemma apply_deltas_untouched:
  "i \<notin> item_id ` set xs \<Longrightarrow> apply_deltas delta xs m i = m i"
  by (induction xs arbitrary: m) (auto simp: apply_deltas_def inc_other)

lemma filter_absent: "map_of sales sid = None \<Longrightarrow> filter (\<lambda>p. fst p \<noteq> sid) sales = sales"
  by (induction sales) (auto split: if_splits)

lemma apply_deltas_distinct:
  "distinct (map item_id xs) \<Longrightarrow> li \<in> set xs \<Longrightarrow> m (item_id li) = Some it \<Longrightarrow>
   apply_deltas delta xs m (item_id li) = Some (it\<lparr>stock := stock it + delta li\<rparr>)"
proof (induction xs arbitrary: m)
  case Nil
  then show ?case by simp
next
  case (Cons x xs)
  show ?case
  proof (cases "li = x")
    case True
    have "item_id x \<notin> item_id ` set xs" using Cons.prems(1) by simp
    then have "apply_deltas delta xs (findByIdAndUpdate_inc (item_id x) (delta x) m) (item_id x)
        = findByIdAndUpdate_inc (item_id x) (delta x) m (item_id x)"
      by (rule apply_deltas_untouched)
    with True Cons.prems(3) show ?thesis by (simp add: apply_deltas_def inc_same)
  next
    case False
    then have in_xs: "li \<in> set xs" using Cons.prems(2) by simp
    then have "item_id li \<in> item_id ` set xs" by (rule imageI)
    then have "item_id li \<noteq> item_id x" using Cons.prems(1) by auto
    then have "findByIdAndUpdate_inc (item_id x) (delta x) m (item_id li) = Some it"
      using Cons.prems(3) by (simp add: inc_other)
    with Cons.IH[OF _ in_xs] Cons.prems(1) show ?thesis by (simp add: apply_deltas_def)
  qed
qed

lemma createSale_success:
  assumes "createSale \<phi> sid clock b d = ((201, bd), d')"
  shows "bd = SaleDoc sid (new_Sale clock b)
       \<and> map_of (saleStore d) sid = None
       \<and> saleStore d' = saleStore d @ [(sid, new_Sale clock b)]
       \<and> itemStore d' = apply_deltas (\<lambda>li. - quantity li) (body_items b) (itemStore d)
       \<and> userStore d' = userStore d"
  using assms
  by (auto simp: createSale_def save_def new_Sale_def Let_def
      split: option.splits sum.splits if_splits prod.splits dest!: adjust_stock_success)

lemma createSale_no_faults:
  assumes "\<forall>k \<le> length (body_items b). \<phi> k = None" and "map_of (saleStore d) sid = None"
  shows "createSale \<phi> sid clock b d =
     ((201, SaleDoc sid (new_Sale clock b)),
      d\<lparr>itemStore := apply_deltas (\<lambda>li. - quantity li) (body_items b) (itemStore d),
        saleStore := saleStore d @ [(sid, new_Sale clock b)]\<rparr>)"
proof -
  have 0: "\<phi> 0 = None" using assms(1) by simp
  have "\<forall>j < length (body_items b). \<phi> (1 + j) = None" using assms(1) by simp
  then have "adjust_stock \<phi> 1 (\<lambda>li. - quantity li) (body_items b) (itemStore d)
     = (None, apply_deltas (\<lambda>li. - quantity li) (body_items b) (itemStore d))"
    by (rule adjust_stock_ok)
  then show ?thesis using 0 assms(2)
    by (simp add: createSale_def save_def new_Sale_def Let_def)
qed

lemma map_of_append_fresh:
  "map_of sales sid = None \<Longrightarrow> map_of (sales @ [(sid, s)]) sid = Some s"
  by (simp add: map_add_def)

lemma filter_append_fresh:
  "map_of sales sid = None \<Longrightarrow> filter (\<lambda>p. fst p \<noteq> sid) (sales @ [(sid, s)]) = sales"
  by (simp add: filter_absent)

lemma inc_None_iff: "findByIdAndUpdate_inc i a m j = None \<longleftrightarrow> m j = None"
  by (simp add: findByIdAndUpdate_inc_def split: option.splits)

lemma apply_deltas_None_iff: "apply_deltas delta xs m j = None \<longleftrightarrow> m j = None"
  by (induction xs arbitrary: m) (simp_all add: apply_deltas_def inc_None_iff)

lemma apply_deltas_skip_missing:
  "apply_deltas delta xs m = apply_deltas delta (filter (\<lambda>li. m (item_id li) \<noteq> None) xs) m"
proof (induction xs arbitrary: m)
  case Nil
  then show ?case by simp
next
  case (Cons x xs)
  let ?m' = "findByIdAndUpdate_inc (item_id x) (delta x) m"
  have same: "filter (\<lambda>li. ?m' (item_id li) \<noteq> None) xs = filter (\<lambda>li. m (item_id li) \<noteq> None) xs"
    by (simp add: inc_None_iff)
  have step: "apply_deltas delta (x # xs) m = apply_deltas delta xs ?m'"
    by (simp add: apply_deltas_def)
  show ?case
  proof (cases "m (item_id x)")
    case None
    then have "?m' = m" by (simp add: inc_missing)
    with step None Cons.IH[of m] show ?thesis by simp
  next
    case (Some it)
    have "apply_deltas delta xs ?m' = apply_deltas delta (filter (\<lambda>li. m (item_id li) \<noteq> None) xs) ?m'"
      using Cons.IH[of ?m'] same by simp
    with step Some show ?thesis by (simp add: apply_deltas_def)
  qed
qed

lemma adjust_stock_first_fault:
  "k < length xs \<Longrightarrow> \<phi> (n + k) = Some e \<Longrightarrow> (\<forall>j < k. \<phi> (n + j) = None) \<Longrightarrow>
   adjust_stock \<phi> n delta xs m = (Some e, apply_deltas delta (take k xs) m)"
proof (induction xs arbitrary: k n m)
  case Nil
  then show ?case by simp
next
  case (Cons x xs)
  show ?case
  proof (cases k)
    case 0
    with Cons.prems show ?thesis by (simp add: apply_deltas_def)
  next
    case (Suc k')
    have here: "\<phi> n = None" using Cons.prems(3) Suc by force
    have a: "k' < length xs" using Cons.prems(1) Suc by simp
    have b: "\<phi> (Suc n + k') = Some e" using Cons.prems(2) Suc by simp
    have c: "\<forall>j < k'. \<phi> (Suc n + j) = None"
    proof (intro allI impI)
      fix j assume "j < k'"
      then have "Suc j < k" using Suc by simp
      then have "\<phi> (n + Suc j) = None" using Cons.prems(3) by blast
      then show "\<phi> (Suc n + j) = None" by simp
    qed
    from Cons.IH[OF a b c] here Suc show ?thesis by (simp add: apply_deltas_def)
  qed
qed

text \<open>
  C1. Creating a sale and then deleting it, with no store call failing and nothing in
  between, answers 201 and then 200 and gives back the database as it was before the
  creation: in particular every item's stock is again what it was, whatever the line items
  (distinct existing items included).
\<close>

theorem delete_inverts_create:
  assumes "\<forall>k \<le> length (body_items b). \<phi> k = None"
    and "map_of (saleStore d) sid = None"
    and "\<forall>k \<le> length (body_items b). \<psi> k = None"
  shows "\<exists>d1. createSale \<phi> sid clock b d = ((201, SaleDoc sid (new_Sale clock b)), d1)
            \<and> deleteSale \<psi> sid d1 = ((200, Message ''Sale deleted''), d)"
proof -
  let ?s = "new_Sale clock b"
  let ?m1 = "apply_deltas (\<lambda>li. - quantity li) (body_items b) (itemStore d)"
  let ?d1 = "d\<lparr>itemStore := ?m1, saleStore := saleStore d @ [(sid, ?s)]\<rparr>"
  have c: "createSale \<phi> sid clock b d = ((201, SaleDoc sid ?s), ?d1)"
    using assms(1,2) by (rule createSale_no_faults)
  have 0: "\<psi> 0 = None" using assms(3) by simp
  have its: "items ?s = body_items b" by (simp add: new_Sale_def)
  have "\<forall>j < length (body_items b). \<psi> (1 + j) = None" using assms(3) by simp
  then have "adjust_stock \<psi> 1 quantity (body_items b) ?m1
     = (None, apply_deltas quantity (body_items b) ?m1)"
    by (rule adjust_stock_ok)
  then have loop: "adjust_stock \<psi> 1 quantity (body_items b) ?m1 = (None, itemStore d)"
    by (simp add: apply_deltas_inverse)
  have look: "map_of (saleStore ?d1) sid = Some ?s"
    using assms(2) by (simp add: map_add_def)
  have filt: "filter (\<lambda>p. fst p \<noteq> sid) (saleStore ?d1) = saleStore d"
    using assms(2) by (simp add: filter_absent)
  have "findByIdAndDelete (\<psi> 0) sid (saleStore ?d1) = Inr (Some ?s, saleStore d)"
    unfolding findByIdAndDelete_def look filt using 0 by simp
  then have "deleteSale \<psi> sid ?d1 = ((200, Message ''Sale deleted''), d)"
    using its loop by (simp add: deleteSale_def)
  with c show ?thesis by blast
qed

theorem delete_inverts_create_witness:
  "map no_faults [0, 1, 2] = [None, None, None]
   \<and> length (body_items body0) = 2
   \<and> map_of (saleStore db0) 100 = None
   \<and> (\<exists>d1. createSale no_faults 100 0 body0 db0 = ((201, SaleDoc 100 (new_Sale 0 body0)), d1)
          \<and> deleteSale no_faults 100 d1 = ((200, Message ''Sale deleted''), db0))"
  using delete_inverts_create[of body0 no_faults db0 100 no_faults 0]
  by (simp add: no_faults_def db0_def body0_def)

text \<open>
  C2. When a creation over distinct existing items answers 201, the stock of each referenced
  item has gone down by exactly the quantity of its line item, all else in the item being
  as before; and a successful creation with the same line items in any other order leaves
  the same item store.
\<close>

theorem createSale_decrements_each_item:
  assumes "createSale \<phi> sid clock b d = ((201, bd), d')"
    and "distinct (map item_id (body_items b))"
    and "\<forall>li \<in> set (body_items b). itemStore d (item_id li) \<noteq> None"
  shows "(\<forall>li \<in> set (body_items b). \<exists>it.
            itemStore d (item_id li) = Some it
          \<and> itemStore d' (item_id li) = Some (it\<lparr>stock := stock it - quantity li\<rparr>))
       \<and> (\<forall>\<phi>' sid' clock' b' bd' d''.
            mset (body_items b') = mset (body_items b)
          \<and> createSale \<phi>' sid' clock' b' d = ((201, bd'), d'')
          \<longrightarrow> itemStore d'' = itemStore d')"
proof (intro conjI ballI allI impI)
  have st: "itemStore d' = apply_deltas (\<lambda>li. - quantity li) (body_items b) (itemStore d)"
    using createSale_success[OF assms(1)] by simp
  {
    fix li assume li: "li \<in> set (body_items b)"
    then obtain it where it: "itemStore d (item_id li) = Some it" using assms(3) by auto
    have "itemStore d' (item_id li) = Some (it\<lparr>stock := stock it + (- quantity li)\<rparr>)"
      unfolding st
      using apply_deltas_distinct[of "body_items b" li "itemStore d" it "\<lambda>li. - quantity li"]
        assms(2) li it by simp
    with it show "\<exists>it. itemStore d (item_id li) = Some it
          \<and> itemStore d' (item_id li) = Some (it\<lparr>stock := stock it - quantity li\<rparr>)"
      by simp
  }
  {
    fix \<phi>' sid' clock' b' bd' d''
    assume h: "mset (body_items b') = mset (body_items b)
          \<and> createSale \<phi>' sid' clock' b' d = ((201, bd'), d'')"
    then have "itemStore d'' = apply_deltas (\<lambda>li. - quantity li) (body_items b') (itemStore d)"
      using createSale_success[of \<phi>' sid' clock' b' d bd' d''] by simp
    also have "\<dots> = apply_deltas (\<lambda>li. - quantity li) (body_items b) (itemStore d)"
      using h apply_deltas_perm[of "body_items b'" "body_items b"] by simp
    finally show "itemStore d'' = itemStore d'" using st by simp
  }
qed

theorem createSale_decrements_each_item_witness:
  "distinct (map item_id (body_items body0))
   \<and> list_all (\<lambda>li. itemStore db0 (item_id li) \<noteq> None) (body_items body0)
   \<and> fst (createSale no_faults 100 0 body0 db0) = (201, SaleDoc 100 (new_Sale 0 body0))
   \<and> itemStore db0 1 = Some itemA
   \<and> itemStore (snd (createSale no_faults 100 0 body0 db0)) 1 = Some (itemA\<lparr>stock := 10 - 3\<rparr>)
   \<and> itemStore db0 2 = Some itemB
   \<and> itemStore (snd (createSale no_faults 100 0 body0 db0)) 2 = Some (itemB\<lparr>stock := 5 - 2\<rparr>)"
proof -
  have h1: "distinct (map item_id (body_items body0))" by (simp add: body0_def)
  have h2: "\<forall>li \<in> set (body_items body0). itemStore db0 (item_id li) \<noteq> None"
    by (simp add: body0_def db0_def)
  have r: "fst (createSale no_faults 100 0 body0 db0) = (201, SaleDoc 100 (new_Sale 0 body0))"
    by (simp add: handler_defs example_defs)
  then have "createSale no_faults 100 0 body0 db0
      = ((201, SaleDoc 100 (new_Sale 0 body0)), snd (createSale no_faults 100 0 body0 db0))"
    by (simp add: prod_eq_iff)
  from createSale_decrements_each_item[OF this h1 h2]
  have "\<forall>li \<in> set (body_items body0). \<exists>it.
            itemStore db0 (item_id li) = Some it
          \<and> itemStore (snd (createSale no_faults 100 0 body0 db0)) (item_id li)
              = Some (it\<lparr>stock := stock it - quantity li\<rparr>)"
    by blast
  then have "itemStore (snd (createSale no_faults 100 0 body0 db0)) 1 = Some (itemA\<lparr>stock := 10 - 3\<rparr>)
     \<and> itemStore (snd (createSale no_faults 100 0 body0 db0)) 2 = Some (itemB\<lparr>stock := 5 - 2\<rparr>)"
    by (simp add: body0_def db0_def itemA_def itemB_def)
  with h1 h2 r show ?thesis by (simp add: list_all_iff db0_def)
qed

text \<open>
  C3. Deleting a sale id that is not in the sale store leaves the whole database, so every
  item's stock, unchanged, and the answer is 404 with the message "Sale not found" (500 with
  the store's message only if the lookup itself throws).
\<close>

theorem deleteSale_missing_sale:
  assumes "map_of (saleStore d) sid = None"
  shows "snd (deleteSale \<phi> sid d) = d
       \<and> fst (deleteSale \<phi> sid d) =
           (case \<phi> 0 of None \<Rightarrow> (404, Message ''Sale not found'') | Some e \<Rightarrow> (500, Message e))"
  using assms
  by (simp add: deleteSale_def findByIdAndDelete_def filter_absent split: option.splits)

theorem deleteSale_missing_sale_witness:
  "map_of (saleStore db0) 5 = None
   \<and> snd (deleteSale no_faults 5 db0) = db0
   \<and> fst (deleteSale no_faults 5 db0) = (404, Message ''Sale not found'')"
  using deleteSale_missing_sale[of db0 5 no_faults]
  by (simp add: db0_def no_faults_def)

text \<open>
  C4. An update never touches the item store, whatever the payload and whether or not the
  sale exists or the store call throws.
\<close>

theorem updateSale_keeps_item_store:
  "itemStore (snd (updateSale \<phi> sid u d)) = itemStore d"
  by (simp add: updateSale_def findByIdAndUpdate_def split: option.splits)

text \<open>The update is a real one: a payload with line items replaces those of the stored sale.\<close>

lemma updateSale_replaces_items:
  assumes "map_of (saleStore d) sid = Some s" and "\<phi> 0 = None" and "update_items u = Some xs"
  shows "fst (updateSale \<phi> sid u d) = (200, SaleDoc sid (apply_update u s))
       \<and> items (apply_update u s) = xs
       \<and> map_of (saleStore (snd (updateSale \<phi> sid u d))) sid = Some (apply_update u s)"
proof -
  have "map_of (map (\<lambda>p. if fst p = sid then (sid, v) else p) sales) sid = Some v"
    if "map_of sales sid = Some s" for sales :: "(oid \<times> sale) list" and v
    using that by (induction sales) (auto split: if_splits)
  with assms show ?thesis
    by (simp add: updateSale_def findByIdAndUpdate_def apply_update_def)
qed

text \<open>
  C8, as the code has it. Here the second decrement throws after the sale has been saved:
  the sale stays in the store and the answer is 400 with the message thrown, not 500.
\<close>

theorem createSale_decrement_failure_is_400:
  "fault_at 2 ''write failed'' 0 = None
   \<and> fault_at 2 ''write failed'' 1 = None
   \<and> fault_at 2 ''write failed'' 2 = Some ''write failed''
   \<and> map_of (saleStore (snd (createSale (fault_at 2 ''write failed'') 100 0 body0 db0))) 100
        = Some (new_Sale 0 body0)
   \<and> fst (createSale (fault_at 2 ''write failed'') 100 0 body0 db0) = (400, Message ''write failed'')
   \<and> fst (fst (createSale (fault_at 2 ''write failed'') 100 0 body0 db0)) \<noteq> 500"
  by (simp add: handler_defs example_defs)

text \<open>
  C8, amended. When the save succeeds and the decrement of line item \<open>k\<close> is the first
  store call to throw, the answer is 400 with the message thrown, the sale stays in the
  sale store, and the item store holds the decrements of the line items before \<open>k\<close>.
\<close>

theorem createSale_decrement_failure:
  assumes "\<phi> 0 = None" and "map_of (saleStore d) sid = None"
    and "k < length (body_items b)" and "\<phi> (Suc k) = Some e"
    and "\<forall>j < k. \<phi> (Suc j) = None"
  shows "fst (createSale \<phi> sid clock b d) = (400, Message e)
       \<and> map_of (saleStore (snd (createSale \<phi> sid clock b d))) sid = Some (new_Sale clock b)
       \<and> itemStore (snd (createSale \<phi> sid clock b d)) =
           apply_deltas (\<lambda>li. - quantity li) (take k (body_items b)) (itemStore d)"
proof -
  have "adjust_stock \<phi> 1 (\<lambda>li. - quantity li) (body_items b) (itemStore d)
      = (Some e, apply_deltas (\<lambda>li. - quantity li) (take k (body_items b)) (itemStore d))"
    using assms(3,4,5) by (intro adjust_stock_first_fault) simp_all
  then show ?thesis using assms(1,2)
    by (simp add: createSale_def save_def new_Sale_def Let_def map_add_def)
qed

theorem createSale_decrement_failure_witness:
  "fault_at 2 ''write failed'' 0 = None
   \<and> map_of (saleStore db0) 100 = None
   \<and> 1 < length (body_items body0)
   \<and> fault_at 2 ''write failed'' (Suc 1) = Some ''write failed''
   \<and> fault_at 2 ''write failed'' (Suc 0) = None
   \<and> fst (createSale (fault_at 2 ''write failed'') 100 0 body0 db0) = (400, Message ''write failed'')
   \<and> map_of (saleStore (snd (createSale (fault_at 2 ''write failed'') 100 0 body0 db0))) 100
        = Some (new_Sale 0 body0)
   \<and> itemStore (snd (createSale (fault_at 2 ''write failed'') 100 0 body0 db0)) 1
        = Some (itemA\<lparr>stock := 7\<rparr>)
   \<and> itemStore (snd (createSale (fault_at 2 ''write failed'') 100 0 body0 db0)) 2
        = Some itemB"
proof -
  have h: "fault_at 2 ''write failed'' 0 = None" "map_of (saleStore db0) 100 = None"
    "1 < length (body_items body0)" "fault_at 2 ''write failed'' (Suc 1) = Some ''write failed''"
    "\<forall>j < 1. fault_at 2 ''write failed'' (Suc j) = None"
    by (simp_all add: example_defs)
  have "apply_deltas (\<lambda>li. - quantity li) (take 1 (body_items body0)) (itemStore db0) 1
      = Some (itemA\<lparr>stock := 7\<rparr>)"
    "apply_deltas (\<lambda>li. - quantity li) (take 1 (body_items body0)) (itemStore db0) 2 = Some itemB"
    by (simp_all add: apply_deltas_def findByIdAndUpdate_inc_def example_defs)
  with createSale_decrement_failure[OF h, of 0] h show ?thesis by (simp add: fault_at_def)
qed

text \<open>
  C9. With no store call failing, a creation answers 201 with the sale and stores it, also
  when line items name items that do not exist: such an item stays absent, and the item
  store is the one that the same sale without those line items would leave.
\<close>

theorem createSale_missing_item_noop:
  assumes "\<forall>k \<le> length (body_items b). \<phi> k = None" and "map_of (saleStore d) sid = None"
  shows "fst (createSale \<phi> sid clock b d) = (201, SaleDoc sid (new_Sale clock b))
       \<and> map_of (saleStore (snd (createSale \<phi> sid clock b d))) sid = Some (new_Sale clock b)
       \<and> (\<forall>i. itemStore d i = None \<longrightarrow> itemStore (snd (createSale \<phi> sid clock b d)) i = None)
       \<and> itemStore (snd (createSale \<phi> sid clock b d)) =
           itemStore (snd (createSale \<phi> sid clock
             (b\<lparr>body_items := filter (\<lambda>li. itemStore d (item_id li) \<noteq> None) (body_items b)\<rparr>) d))"
proof -
  define kept where "kept = filter (\<lambda>li. itemStore d (item_id li) \<noteq> None) (body_items b)"
  have len: "length kept \<le> length (body_items b)"
    unfolding kept_def by (rule length_filter_le)
  have skip: "apply_deltas (\<lambda>li. - quantity li) (body_items b) (itemStore d)
      = apply_deltas (\<lambda>li. - quantity li) kept (itemStore d)"
    unfolding kept_def by (rule apply_deltas_skip_missing)
  have "\<forall>k \<le> length (body_items (b\<lparr>body_items := kept\<rparr>)). \<phi> k = None"
    using assms(1) len by simp
  then have c': "createSale \<phi> sid clock (b\<lparr>body_items := kept\<rparr>) d =
     ((201, SaleDoc sid (new_Sale clock (b\<lparr>body_items := kept\<rparr>))),
      d\<lparr>itemStore := apply_deltas (\<lambda>li. - quantity li) (body_items (b\<lparr>body_items := kept\<rparr>)) (itemStore d),
        saleStore := saleStore d @ [(sid, new_Sale clock (b\<lparr>body_items := kept\<rparr>))]\<rparr>)"
    using assms(2) by (rule createSale_no_faults)
  have c: "createSale \<phi> sid clock b d =
     ((201, SaleDoc sid (new_Sale clock b)),
      d\<lparr>itemStore := apply_deltas (\<lambda>li. - quantity li) (body_items b) (itemStore d),
        saleStore := saleStore d @ [(sid, new_Sale clock b)]\<rparr>)"
    using assms by (rule createSale_no_faults)
  have "fst (createSale \<phi> sid clock b d) = (201, SaleDoc sid (new_Sale clock b))
       \<and> map_of (saleStore (snd (createSale \<phi> sid clock b d))) sid = Some (new_Sale clock b)
       \<and> (\<forall>i. itemStore d i = None \<longrightarrow> itemStore (snd (createSale \<phi> sid clock b d)) i = None)
       \<and> itemStore (snd (createSale \<phi> sid clock b d)) =
           itemStore (snd (createSale \<phi> sid clock (b\<lparr>body_items := kept\<rparr>) d))"
    unfolding c c' using assms(2) skip
    by (simp add: map_add_def apply_deltas_None_iff)
  then show ?thesis unfolding kept_def .
qed

theorem createSale_missing_item_noop_witness:
  "map no_faults [0, 1, 2] = [None, None, None]
   \<and> length (body_items body_missing) = 2
   \<and> map_of (saleStore db0) 100 = None
   \<and> itemStore db0 9 = None
   \<and> fst (createSale no_faults 100 0 body_missing db0) = (201, SaleDoc 100 (new_Sale 0 body_missing))
   \<and> map_of (saleStore (snd (createSale no_faults 100 0 body_missing db0))) 100
        = Some (new_Sale 0 body_missing)
   \<and> itemStore (snd (createSale no_faults 100 0 body_missing db0)) 9 = None
   \<and> itemStore (snd (createSale no_faults 100 0 body_missing db0)) 1 = Some (itemA\<lparr>stock := 7\<rparr>)
   \<and> itemStore (snd (createSale no_faults 100 0 body_missing db0)) 2 = Some itemB"
proof -
  have h: "\<forall>k \<le> length (body_items body_missing). no_faults k = None"
    "map_of (saleStore db0) 100 = None"
    by (simp_all add: example_defs)
  have n: "itemStore db0 9 = None" by (simp add: db0_def)
  have e: "itemStore (snd (createSale no_faults 100 0 body_missing db0)) 1 = Some (itemA\<lparr>stock := 7\<rparr>)"
    "itemStore (snd (createSale no_faults 100 0 body_missing db0)) 2 = Some itemB"
    by (simp_all add: handler_defs example_defs body_missing_def)
  have hs: "map no_faults [0, 1, 2] = [None, None, None]" "length (body_items body_missing) = 2"
    by (simp_all add: no_faults_def body_missing_def)
  note t = createSale_missing_item_noop[OF h, of 0]
  have a: "fst (createSale no_faults 100 0 body_missing db0)
      = (201, SaleDoc 100 (new_Sale 0 body_missing))"
    using t by blast
  have b: "map_of (saleStore (snd (createSale no_faults 100 0 body_missing db0))) 100
      = Some (new_Sale 0 body_missing)"
    using t by blast
  have c: "itemStore (snd (createSale no_faults 100 0 body_missing db0)) 9 = None"
    using t n by blast
  from hs h(2) n a b c e show ?thesis by blast
qed

section \<open>Calendar arithmetic\<close>

lemma div_step:
  fixes z n :: int
  assumes "0 < n"
  shows "z div n - (z - 1) div n = (if z mod n = 0 then 1 else 0)"
proof (cases "z mod n = 0")
  case True
  have "z - 1 = n * (z div n - 1) + (n - 1)"
    using True by (simp add: algebra_simps) (metis True mult.commute mult_div_mod_eq add.right_neutral)
  then have "(z - 1) div n = z div n - 1"
    using assms by (intro int_div_pos_eq[where r = "n - 1"]) simp_all
  with True show ?thesis by simp
next
  case False
  have pos: "0 < z mod n" using False assms
    by (simp add: order_less_le)
  have "z - 1 = n * (z div n) + (z mod n - 1)" by simp
  moreover have "z mod n < n" using assms by (rule pos_mod_bound)
  then have "z mod n - 1 < n" by simp
  moreover note this
  ultimately have "(z - 1) div n = z div n"
    using pos by (intro int_div_pos_eq[where r = "z mod n - 1"]) simp_all
  with False show ?thesis by simp
qed

lemma div_shift:
  fixes z n k :: int
  assumes "n \<noteq> 0"
  shows "(z - n * k) div n = z div n - k"
  using div_mult_self4[OF assms, of "- k" z] by simp

lemma dayFromYear_step:
  "dayFromYear y - dayFromYear (y - 1) = 365 + (if isLeapYear (y - 1) then 1 else 0)"
proof -
  define z where "z = y - 1"
  have a: "(y - 1969) div 4 = z div 4 - 492" "(y - 1 - 1969) div 4 = (z - 1) div 4 - 492"
    using div_shift[of 4 z 492] div_shift[of 4 "z - 1" 492] by (simp_all add: z_def)
  have b: "(y - 1901) div 100 = z div 100 - 19" "(y - 1 - 1901) div 100 = (z - 1) div 100 - 19"
    using div_shift[of 100 z 19] div_shift[of 100 "z - 1" 19] by (simp_all add: z_def)
  have c: "(y - 1601) div 400 = z div 400 - 4" "(y - 1 - 1601) div 400 = (z - 1) div 400 - 4"
    using div_shift[of 400 z 4] div_shift[of 400 "z - 1" 4] by (simp_all add: z_def)
  have s4: "z div 4 - (z - 1) div 4 = (if z mod 4 = 0 then 1 else 0)" by (rule div_step) simp
  have s100: "z div 100 - (z - 1) div 100 = (if z mod 100 = 0 then 1 else 0)" by (rule div_step) simp
  have s400: "z div 400 - (z - 1) div 400 = (if z mod 400 = 0 then 1 else 0)" by (rule div_step) simp
  have "(100::int) dvd 400" "(4::int) dvd 100" by simp_all
  then have m1: "z mod 400 = 0 \<Longrightarrow> z mod 100 = 0" and m2: "z mod 100 = 0 \<Longrightarrow> z mod 4 = 0"
    by (simp_all only: mod_eq_0_iff_dvd) (erule (1) dvd_trans)+
  have "dayFromYear y - dayFromYear (y - 1)
      = 365 + (z div 4 - (z - 1) div 4) - (z div 100 - (z - 1) div 100) + (z div 400 - (z - 1) div 400)"
    unfolding dayFromYear_def a b c by simp
  also have "\<dots> = 365 + (if isLeapYear z then 1 else 0)"
    unfolding s4 s100 s400 isLeapYear_def using m1 m2 by auto
  finally show ?thesis by (simp add: z_def)
qed

lemma monthStart_step:
  assumes "1 \<le> m" and "m \<le> 11"
  shows "28 \<le> monthStart leap m - monthStart leap (m - 1)
       \<and> monthStart leap m - monthStart leap (m - 1) \<le> 31"
proof -
  have "m = 1 \<or> m = 2 \<or> m = 3 \<or> m = 4 \<or> m = 5 \<or> m = 6 \<or> m = 7 \<or> m = 8
      \<or> m = 9 \<or> m = 10 \<or> m = 11"
    using assms by arith
  then show ?thesis by (elim disjE) (simp_all add: monthStart_def)
qed

lemma makeDay_in_year:
  "0 \<le> m \<Longrightarrow> m \<le> 11 \<Longrightarrow> makeDay y m d = dayFromYear y + monthStart (isLeapYear y) m + d - 1"
  by (simp add: makeDay_def Let_def)

lemma makeDay_december_before:
  "makeDay y (- 1) d = dayFromYear (y - 1) + monthStart (isLeapYear (y - 1)) 11 + d - 1"
  by (simp add: makeDay_def Let_def)

lemma makeDay_month_back:
  assumes "0 \<le> m" and "m \<le> 11"
  shows "28 \<le> makeDay y m d - makeDay y (m - 1) d \<and> makeDay y m d - makeDay y (m - 1) d \<le> 31"
proof (cases "m = 0")
  case True
  have "makeDay y 0 d - makeDay y (- 1) d
      = dayFromYear y - dayFromYear (y - 1) - monthStart (isLeapYear (y - 1)) 11"
    by (simp add: makeDay_in_year makeDay_december_before monthStart_def)
  also have "\<dots> = 31" unfolding dayFromYear_step by (simp add: monthStart_def)
  finally show ?thesis using True by simp
next
  case False
  then have m: "1 \<le> m" "0 \<le> m - 1" "m - 1 \<le> 11" using assms by simp_all
  have "makeDay y m d - makeDay y (m - 1) d
      = monthStart (isLeapYear y) m - monthStart (isLeapYear y) (m - 1)"
    using assms m by (simp add: makeDay_in_year)
  with monthStart_step[OF m(1) assms(2)] show ?thesis by simp
qed

lemma monthStart_leap_diff:
  assumes "0 \<le> m" and "m \<le> 11"
  shows "monthStart a m - monthStart b m
       = (if m \<le> 1 then 0 else (if a then 1 else 0) - (if b then 1 else 0))"
proof -
  have "m = 0 \<or> m = 1 \<or> 2 \<le> m" using assms by arith
  then show ?thesis by (elim disjE) (simp_all add: monthStart_def)
qed

lemma makeDay_year_back:
  assumes "0 \<le> m" and "m \<le> 11"
  shows "365 \<le> makeDay y m d - makeDay (y - 1) m d \<and> makeDay y m d - makeDay (y - 1) m d \<le> 366"
proof -
  have "makeDay y m d - makeDay (y - 1) m d
      = (dayFromYear y - dayFromYear (y - 1))
        + (monthStart (isLeapYear y) m - monthStart (isLeapYear (y - 1)) m)"
    using assms by (simp add: makeDay_in_year)
  also have "\<dots> = 365 + (if isLeapYear (y - 1) then 1 else 0)
        + (if m \<le> 1 then 0 else (if isLeapYear y then 1 else 0) - (if isLeapYear (y - 1) then 1 else 0))"
    unfolding dayFromYear_step monthStart_leap_diff[OF assms] by simp
  finally show ?thesis by (simp split: if_splits)
qed

lemma pastWeek_eq: "pastWeek now = valueOf now - 7 * msPerDay"
  by (simp add: pastWeek_def setDate_def valueOf_def makeDate_def makeDay_def Let_def algebra_simps)

lemma pastMonth_bounds:
  assumes "0 \<le> getMonth now" and "getMonth now \<le> 11"
  shows "valueOf now - 31 * msPerDay \<le> pastMonth now \<and> pastMonth now \<le> valueOf now - 28 * msPerDay"
proof -
  let ?a = "makeDay (getFullYear now) (getMonth now) (getDate now)"
  let ?b = "makeDay (getFullYear now) (getMonth now - 1) (getDate now)"
  have d: "28 \<le> ?a - ?b \<and> ?a - ?b \<le> 31" using assms by (rule makeDay_month_back)
  have "valueOf now - pastMonth now = (?a - ?b) * msPerDay"
    by (simp add: valueOf_def pastMonth_def setMonth_def makeDate_def algebra_simps)
  moreover have "28 * msPerDay \<le> (?a - ?b) * msPerDay" "(?a - ?b) * msPerDay \<le> 31 * msPerDay"
    using d by (simp_all add: msPerDay_def)
  ultimately show ?thesis by linarith
qed

lemma pastYear_bounds:
  assumes "0 \<le> getMonth now" and "getMonth now \<le> 11"
  shows "valueOf now - 366 * msPerDay \<le> pastYear now \<and> pastYear now \<le> valueOf now - 365 * msPerDay"
proof -
  let ?a = "makeDay (getFullYear now) (getMonth now) (getDate now)"
  let ?b = "makeDay (getFullYear now - 1) (getMonth now) (getDate now)"
  have d: "365 \<le> ?a - ?b \<and> ?a - ?b \<le> 366" using assms by (rule makeDay_year_back)
  have "valueOf now - pastYear now = (?a - ?b) * msPerDay"
    by (simp add: valueOf_def pastYear_def setFullYear_def makeDate_def algebra_simps)
  moreover have "365 * msPerDay \<le> (?a - ?b) * msPerDay" "(?a - ?b) * msPerDay \<le> 366 * msPerDay"
    using d by (simp_all add: msPerDay_def)
  ultimately show ?thesis by linarith
qed

lemma now0_dates:
  "valueOf now0 = 1718452800000" "pastWeek now0 = 1717848000000"
  "pastMonth now0 = 1715774400000" "pastYear now0 = 1686830400000"
  by (simp_all add: date_defs Let_def)

lemma sale_dates:
  "date sale3 = 1718193600000" "date sale3_other = 1718193600000"
  "date sale40 = 1714996800000" "date sale_dangling = 1718193600000"
  by (simp_all add: sale_defs now0_dates msPerDay_def)

section \<open>Grouping and windows\<close>

lemma map_of_accumulate:
  "map_of (accumulate k q groups) =
   (map_of groups)(k \<mapsto> (case map_of groups k of None \<Rightarrow> q | Some t \<Rightarrow> t + q))"
  by (induction groups) (auto simp: fun_eq_iff)

lemma map_fst_accumulate:
  "map fst (accumulate k q groups) =
   (if k \<in> set (map fst groups) then map fst groups else map fst groups @ [k])"
proof (induction groups)
  case Nil
  then show ?case by simp
next
  case (Cons g groups)
  obtain k' t where g: "g = (k', t)" by (cases g)
  show ?case unfolding g using Cons.IH by auto
qed

lemma keys_accumulate: "fst ` set (accumulate k q groups) = insert k (fst ` set groups)"
proof -
  have "set (map fst (accumulate k q groups)) = insert k (set (map fst groups))"
    unfolding map_fst_accumulate by auto
  then show ?thesis by simp
qed

lemma distinct_accumulate:
  "distinct (map fst groups) \<Longrightarrow> distinct (map fst (accumulate k q groups))"
  unfolding map_fst_accumulate by simp

lemma total_in_Nil: "total_in [] k = 0"
  by (simp add: total_in_def)

lemma total_in_accumulate:
  "total_in (accumulate k q groups) k' = total_in groups k' + (if k' = k then q else 0)"
  by (simp add: total_in_def map_of_accumulate split: option.splits)

lemma total_in_foldl:
  "total_in (foldl step groups docs) k =
   total_in groups k + (\<Sum>doc \<leftarrow> docs. if group_id doc = k then quantity (u_items doc) else 0)"
  by (induction docs arbitrary: groups) (simp_all add: total_in_accumulate)

lemma keys_foldl:
  "fst ` set (foldl step groups docs) = fst ` set groups \<union> group_id ` set docs"
  by (induction docs arbitrary: groups) (auto simp: keys_accumulate)

lemma distinct_foldl:
  "distinct (map fst groups) \<Longrightarrow> distinct (map fst (foldl step groups docs))"
  by (induction docs arbitrary: groups) (simp_all add: distinct_accumulate)

lemma total_in_group_sum:
  "total_in (group_sum docs) k =
   (\<Sum>doc \<leftarrow> docs. if group_id doc = k then quantity (u_items doc) else 0)"
  by (simp add: group_sum_def total_in_foldl total_in_Nil)

lemma keys_group_sum: "fst ` set (group_sum docs) = group_id ` set docs"
  by (simp add: group_sum_def keys_foldl)

lemma distinct_group_sum: "distinct (map fst (group_sum docs))"
  by (simp add: group_sum_def distinct_foldl)

lemma map_of_group_sum:
  assumes "k \<in> group_id ` set docs"
  shows "map_of (group_sum docs) k = Some (total_in (group_sum docs) k)"
proof -
  have "k \<in> fst ` set (group_sum docs)" using assms by (simp add: keys_group_sum)
  then have "map_of (group_sum docs) k \<noteq> None" by (simp add: map_of_eq_None_iff)
  then show ?thesis by (auto simp: total_in_def)
qed

lemma sum_match_gte:
  "(\<Sum>doc \<leftarrow> match_gte bound docs. f doc) = (\<Sum>doc \<leftarrow> docs. if bound \<le> u_date doc then f doc else 0)"
  by (induction docs) (simp_all add: match_gte_def)

lemma sum_unwind:
  "(\<Sum>doc \<leftarrow> unwind sales. f doc) =
   (\<Sum>(sid, s) \<leftarrow> sales. \<Sum>li \<leftarrow> items s.
      f \<lparr>u_id = sid, u_user_id = user_id s, u_date = date s, u_items = li\<rparr>)"
  by (induction sales) (auto simp: unwind_def comp_def)

lemma sum_list_if_const:
  "(\<Sum>x \<leftarrow> xs. if c then f x else (0::int)) = (if c then (\<Sum>x \<leftarrow> xs. f x) else 0)"
  by (induction xs) simp_all

lemma total_in_window_groups:
  "total_in (window_groups bound sales) k = quantity_sold bound sales k"
proof -
  have "total_in (window_groups bound sales) k =
     (\<Sum>(sid, s) \<leftarrow> sales. \<Sum>li \<leftarrow> items s.
        if bound \<le> date s then (if (item_id li, user_id s) = k then quantity li else 0) else 0)"
    by (simp add: window_groups_def total_in_group_sum sum_match_gte sum_unwind group_id_def
        cong: if_cong)
  also have "\<dots> = quantity_sold bound sales k"
    unfolding quantity_sold_def
    by (rule arg_cong[where f = sum_list], rule map_cong[OF refl])
       (auto simp: sum_list_if_const prod_eq_iff intro!: arg_cong[where f = sum_list])
  finally show ?thesis .
qed

lemma unwind_append: "unwind (xs @ ys) = unwind xs @ unwind ys"
  by (simp add: unwind_def)

lemma unwind_single:
  "unwind [(sid, s)] =
   map (\<lambda>li. \<lparr>u_id = sid, u_user_id = user_id s, u_date = date s, u_items = li\<rparr>) (items s)"
  by (simp add: unwind_def)

lemma match_gte_append: "match_gte bound (xs @ ys) = match_gte bound xs @ match_gte bound ys"
  by (simp add: match_gte_def)

lemma match_gte_single_late:
  "date s < bound \<Longrightarrow> match_gte bound (unwind [(sid, s)]) = []"
  by (simp add: unwind_single match_gte_def filter_empty_conv)

lemma in_unwind:
  assumes "(sid, s) \<in> set sales" and "li \<in> set (items s)"
  shows "\<lparr>u_id = sid, u_user_id = user_id s, u_date = date s, u_items = li\<rparr> \<in> set (unwind sales)"
proof -
  from assms(1) obtain p q where "sales = p @ [(sid, s)] @ q"
    by (auto dest: split_list)
  then have "unwind sales = unwind p @ unwind [(sid, s)] @ unwind q"
    by (simp only: unwind_append)
  then show ?thesis using assms(2) by (simp add: unwind_single)
qed

lemma key_in_window:
  assumes "(sid, s) \<in> set sales" and "li \<in> set (items s)" and "bound \<le> date s"
  shows "(item_id li, user_id s) \<in> group_id ` set (match_gte bound (unwind sales))"
proof -
  let ?doc = "\<lparr>u_id = sid, u_user_id = user_id s, u_date = date s, u_items = li\<rparr>"
  have "?doc \<in> set (match_gte bound (unwind sales))"
    using in_unwind[OF assms(1,2)] assms(3) by (simp add: match_gte_def)
  moreover have "group_id ?doc = (item_id li, user_id s)" by (simp add: group_id_def)
  ultimately show ?thesis by (metis imageI)
qed

lemma map_of_window_groups:
  assumes "(sid, s) \<in> set sales" and "li \<in> set (items s)" and "bound \<le> date s"
  shows "map_of (window_groups bound sales) (item_id li, user_id s)
       = Some (quantity_sold bound sales (item_id li, user_id s))"
  using map_of_group_sum[OF key_in_window[OF assms]] total_in_window_groups
  by (simp add: window_groups_def)

lemma facet_window_groups: "facet bound (unwind sales) = map project_row (window_groups bound sales)"
  by (simp add: facet_def window_groups_def)

lemma row_in_facet:
  assumes "(sid, s) \<in> set sales" and "li \<in> set (items s)" and "bound \<le> date s"
  shows "\<lparr>row_item_id = item_id li, row_user_id = user_id s,
          row_total = quantity_sold bound sales (item_id li, user_id s)\<rparr>
         \<in> set (facet bound (unwind sales))"
proof -
  let ?k = "(item_id li, user_id s)"
  have "(?k, quantity_sold bound sales ?k) \<in> set (window_groups bound sales)"
    using map_of_window_groups[OF assms] by (rule map_of_SomeD)
  then have "project_row (?k, quantity_sold bound sales ?k) \<in> set (facet bound (unwind sales))"
    unfolding facet_window_groups by simp
  then show ?thesis by (simp add: project_row_def)
qed

lemma facet_keys_distinct:
  "distinct (map (\<lambda>r. (row_item_id r, row_user_id r)) (facet bound docs))"
proof -
  have "map (\<lambda>r. (row_item_id r, row_user_id r)) (facet bound docs)
      = map fst (group_sum (match_gte bound docs))"
    by (simp add: facet_def project_row_def comp_def)
  then show ?thesis by (simp add: distinct_group_sum)
qed

lemma quantity_sold_with_line_item:
  assumes "bound \<le> date s"
  shows "quantity_sold bound (before @ [(sid, s\<lparr>items := xs @ [li] @ ys\<rparr>)] @ after)
           (item_id li, user_id s)
       = quantity_sold bound (before @ [(sid, s\<lparr>items := xs @ ys\<rparr>)] @ after)
           (item_id li, user_id s) + quantity li"
  using assms by (simp add: quantity_sold_def)

lemma window_with_line_item:
  assumes "bound \<le> date s"
  shows "map_of (window_groups bound (before @ [(sid, s\<lparr>items := xs @ [li] @ ys\<rparr>)] @ after))
           (item_id li, user_id s)
       = Some (total_in (window_groups bound (before @ [(sid, s\<lparr>items := xs @ ys\<rparr>)] @ after))
           (item_id li, user_id s) + quantity li)"
proof -
  let ?s = "s\<lparr>items := xs @ [li] @ ys\<rparr>"
  have "map_of (window_groups bound (before @ [(sid, ?s)] @ after)) (item_id li, user_id ?s)
      = Some (quantity_sold bound (before @ [(sid, ?s)] @ after) (item_id li, user_id ?s))"
    by (rule map_of_window_groups[where sid = sid]) (use assms in simp_all)
  then show ?thesis
    using quantity_sold_with_line_item[OF assms, of before sid xs li ys after]
    by (simp add: total_in_window_groups)
qed

lemma match_gte_around:
  "match_gte bound (unwind (before @ [(sid, s)] @ after))
   = match_gte bound (unwind before) @ match_gte bound (unwind [(sid, s)])
     @ match_gte bound (unwind after)"
  by (simp only: unwind_append match_gte_append)

lemma window_without_line_item:
  assumes "date s < bound"
  shows "window_groups bound (before @ [(sid, s\<lparr>items := xs @ [li] @ ys\<rparr>)] @ after)
       = window_groups bound (before @ [(sid, s\<lparr>items := xs @ ys\<rparr>)] @ after)"
proof -
  have "match_gte bound (unwind [(sid, s\<lparr>items := xs @ [li] @ ys\<rparr>)]) = []"
    "match_gte bound (unwind [(sid, s\<lparr>items := xs @ ys\<rparr>)]) = []"
    using assms by (simp_all add: match_gte_single_late)
  then show ?thesis
    unfolding window_groups_def match_gte_around by simp
qed

lemma window_groups_line_item:
  assumes "0 \<le> getMonth now" and "getMonth now \<le> 11"
    and "sales = before @ [(sid, s\<lparr>items := xs @ [li] @ ys\<rparr>)] @ after"
    and "without = before @ [(sid, s\<lparr>items := xs @ ys\<rparr>)] @ after"
    and "k = (item_id li, user_id s)"
  shows "(pastWeek now \<le> date s \<longrightarrow>
            map_of (window_groups (pastWeek now) sales) k
              = Some (total_in (window_groups (pastWeek now) without) k + quantity li)
          \<and> map_of (window_groups (pastMonth now) sales) k
              = Some (total_in (window_groups (pastMonth now) without) k + quantity li)
          \<and> map_of (window_groups (pastYear now) sales) k
              = Some (total_in (window_groups (pastYear now) without) k + quantity li))
       \<and> (date s = valueOf now - 40 * msPerDay \<longrightarrow>
            window_groups (pastWeek now) sales = window_groups (pastWeek now) without
          \<and> window_groups (pastMonth now) sales = window_groups (pastMonth now) without
          \<and> map_of (window_groups (pastYear now) sales) k
              = Some (total_in (window_groups (pastYear now) without) k + quantity li))"
proof (intro conjI impI)
  have m: "valueOf now - 2678400000 \<le> pastMonth now" "pastMonth now \<le> valueOf now - 2419200000"
    using pastMonth_bounds[OF assms(1,2)] by (simp_all add: msPerDay_def)
  have y: "valueOf now - 31622400000 \<le> pastYear now" "pastYear now \<le> valueOf now - 31536000000"
    using pastYear_bounds[OF assms(1,2)] by (simp_all add: msPerDay_def)
  have w7: "pastWeek now = valueOf now - 604800000"
    by (simp add: pastWeek_eq msPerDay_def)
  {
    assume w: "pastWeek now \<le> date s"
    have b: "pastMonth now \<le> date s" "pastYear now \<le> date s"
      using w w7 m y by linarith+
    show "map_of (window_groups (pastWeek now) sales) k
              = Some (total_in (window_groups (pastWeek now) without) k + quantity li)"
      unfolding assms(3,4,5) using w by (rule window_with_line_item)
    show "map_of (window_groups (pastMonth now) sales) k
              = Some (total_in (window_groups (pastMonth now) without) k + quantity li)"
      unfolding assms(3,4,5) using b(1) by (rule window_with_line_item)
    show "map_of (window_groups (pastYear now) sales) k
              = Some (total_in (window_groups (pastYear now) without) k + quantity li)"
      unfolding assms(3,4,5) using b(2) by (rule window_with_line_item)
  }
  {
    assume "date s = valueOf now - 40 * msPerDay"
    then have d: "date s = valueOf now - 3456000000" by (simp add: msPerDay_def)
    have lw: "date s < pastWeek now" using d w7 by linarith
    have lm: "date s < pastMonth now" using d m by linarith
    have ly: "pastYear now \<le> date s" using d y by linarith
    show "window_groups (pastWeek now) sales = window_groups (pastWeek now) without"
      unfolding assms(3,4) using lw by (rule window_without_line_item)
    show "window_groups (pastMonth now) sales = window_groups (pastMonth now) without"
      unfolding assms(3,4) using lm by (rule window_without_line_item)
    show "map_of (window_groups (pastYear now) sales) k
              = Some (total_in (window_groups (pastYear now) without) k + quantity li)"
      unfolding assms(3,4,5) using ly by (rule window_with_line_item)
  }
qed

lemma facet_rows_by_item_and_user:
  assumes "(sid1, s1) \<in> set sales" and "(sid2, s2) \<in> set sales"
    and "user_id s1 \<noteq> user_id s2"
    and "bound \<le> date s1" and "bound \<le> date s2"
    and "li1 \<in> set (items s1)" and "li2 \<in> set (items s2)"
    and "item_id li1 = i" and "item_id li2 = i"
  shows "\<lparr>row_item_id = i, row_user_id = user_id s1,
           row_total = quantity_sold bound sales (i, user_id s1)\<rparr>
           \<in> set (facet bound (unwind sales))
       \<and> \<lparr>row_item_id = i, row_user_id = user_id s2,
           row_total = quantity_sold bound sales (i, user_id s2)\<rparr>
           \<in> set (facet bound (unwind sales))
       \<and> distinct (map (\<lambda>r. (row_item_id r, row_user_id r)) (facet bound (unwind sales)))"
  using row_in_facet[OF assms(1) assms(6) assms(4)] row_in_facet[OF assms(2) assms(7) assms(5)]
    assms(8,9) facet_keys_distinct[of bound "unwind sales"]
  by simp

section \<open>Formatting the report\<close>

lemma format_entry_Inl: "format_entry p = Inl e \<longleftrightarrow> p_item p = None \<and> e = null_deref"
  by (auto simp: format_entry_def split: option.splits)

lemma format_entry_user_name:
  assumes "format_entry (populate_row d r) = Inr e"
  shows "user_name e =
     (case userStore d (row_user_id r) of
        None \<Rightarrow> ''Unknown''
      | Some u \<Rightarrow> if name u = [] then ''Unknown'' else name u)"
  using assms by (auto simp: format_entry_def populate_row_def split: option.splits)

lemma formatResults_Inl: "formatResults ps = Inl e \<Longrightarrow> e = null_deref"
  by (induction ps arbitrary: e) (auto simp: format_entry_Inl split: sum.splits)

lemma formatResults_missing:
  "p \<in> set ps \<Longrightarrow> p_item p = None \<Longrightarrow> formatResults ps = Inl null_deref"
proof (induction ps)
  case Nil
  then show ?case by simp
next
  case (Cons a ps)
  show ?case
  proof (cases "format_entry a")
    case (Inl e)
    then have "e = null_deref" by (simp add: format_entry_Inl)
    with Inl show ?thesis by simp
  next
    case (Inr x)
    then have "p \<noteq> a" using Cons.prems(2) by (auto simp: format_entry_def)
    then have "formatResults ps = Inl null_deref" using Cons by simp
    with Inr show ?thesis by simp
  qed
qed

lemma formatResults_Inr:
  "formatResults ps = Inr es \<Longrightarrow>
   length es = length ps \<and> (\<forall>n < length ps. format_entry (ps ! n) = Inr (es ! n))"
proof (induction ps arbitrary: es)
  case Nil
  then show ?case by simp
next
  case (Cons a ps)
  from Cons.prems obtain x xs where
    x: "format_entry a = Inr x" and xs: "formatResults ps = Inr xs" and es: "es = x # xs"
    by (auto split: sum.splits)
  from Cons.IH[OF xs] x es show ?case by (auto simp: nth_Cons split: nat.splits)
qed

lemma report_ok:
  assumes "getFrequentlySoldItems \<phi> now d = (200, Report w m y)"
    and "aggregate now (saleStore d) = (rw, rm, ry)"
  shows "formatResults (populate d rw) = Inr w
       \<and> formatResults (populate d rm) = Inr m
       \<and> formatResults (populate d ry) = Inr y"
  using assms
  by (simp add: getFrequentlySoldItems_def split: option.splits sum.splits)

section \<open>The windows of the report\<close>

lemma aggregate_windows:
  "aggregate now sales =
     (map project_row (window_groups (pastWeek now) sales),
      map project_row (window_groups (pastMonth now) sales),
      map project_row (window_groups (pastYear now) sales))"
  by (simp add: aggregate_def Let_def facet_window_groups)

lemma window_keys_distinct:
  "distinct (map (\<lambda>r. (row_item_id r, row_user_id r)) (map project_row (window_groups bound sales)))"
  using facet_keys_distinct[of bound "unwind sales"] by (simp add: facet_window_groups)

lemma total_of_rows_absent:
  "(i, u) \<notin> fst ` set groups \<Longrightarrow> total_of_rows (map project_row groups) i u = 0"
proof (induction groups)
  case Nil
  then show ?case by (simp add: total_of_rows_def)
next
  case (Cons g groups)
  then have "fst g \<noteq> (i, u)" and "(i, u) \<notin> fst ` set groups" by auto
  with Cons.IH show ?case
    by (auto simp: total_of_rows_def project_row_def prod_eq_iff)
qed

lemma total_of_rows_project:
  "distinct (map fst groups) \<Longrightarrow>
   total_of_rows (map project_row groups) i u = total_in groups (i, u)"
proof (induction groups)
  case Nil
  then show ?case by (simp add: total_of_rows_def total_in_def)
next
  case (Cons g groups)
  obtain k t where g: "g = (k, t)" by (cases g)
  have rest: "total_of_rows (map project_row groups) i u = total_in groups (i, u)"
    using Cons by simp
  have split: "total_of_rows (map project_row (g # groups)) i u
      = (if k = (i, u) then t else 0) + total_of_rows (map project_row groups) i u"
    by (auto simp: total_of_rows_def project_row_def g)
  show ?case
  proof (cases "k = (i, u)")
    case True
    then have "(i, u) \<notin> fst ` set groups" using Cons.prems g by auto
    then have "total_of_rows (map project_row groups) i u = 0" by (rule total_of_rows_absent)
    with split True g show ?thesis by (simp add: total_in_def)
  next
    case False
    with split rest g show ?thesis by (simp add: total_in_def)
  qed
qed

lemma total_of_window_rows:
  "total_of_rows (map project_row (window_groups bound sales)) i u
   = total_in (window_groups bound sales) (i, u)"
  by (rule total_of_rows_project) (simp add: window_groups_def distinct_group_sum)

lemma window_row_with_line_item:
  assumes "bound \<le> date s"
  shows "\<lparr>row_item_id = item_id li, row_user_id = user_id s,
          row_total =
            total_of_rows
              (map project_row
                (window_groups bound (before @ [(sid, s\<lparr>items := xs @ ys\<rparr>)] @ after)))
              (item_id li) (user_id s) + quantity li\<rparr>
         \<in> set (map project_row
              (window_groups bound (before @ [(sid, s\<lparr>items := xs @ [li] @ ys\<rparr>)] @ after)))"
proof -
  let ?with = "window_groups bound (before @ [(sid, s\<lparr>items := xs @ [li] @ ys\<rparr>)] @ after)"
  let ?without = "window_groups bound (before @ [(sid, s\<lparr>items := xs @ ys\<rparr>)] @ after)"
  let ?k = "(item_id li, user_id s)"
  have "map_of ?with ?k = Some (total_in ?without ?k + quantity li)"
    using assms by (rule window_with_line_item)
  then have "(?k, total_in ?without ?k + quantity li) \<in> set ?with" by (rule map_of_SomeD)
  then have "project_row (?k, total_in ?without ?k + quantity li) \<in> set (map project_row ?with)"
    by simp
  then show ?thesis by (simp add: project_row_def total_of_window_rows)
qed

lemma formatResults_fields:
  "formatResults (populate d rows) = Inr es \<Longrightarrow>
   map entry_id es = map row_item_id rows \<and> map totalQuantitySold es = map row_total rows"
proof (induction rows arbitrary: es)
  case Nil
  then show ?case by (simp add: populate_def)
next
  case (Cons r rows)
  from Cons.prems obtain x xs where
    x: "format_entry (populate_row d r) = Inr x"
    and xs: "formatResults (populate d rows) = Inr xs" and es: "es = x # xs"
    by (auto simp: populate_def split: sum.splits)
  have "entry_id x = row_item_id r \<and> totalQuantitySold x = row_total r"
    using x by (auto simp: format_entry_def populate_row_def split: option.splits)
  with Cons.IH[OF xs] es show ?case by simp
qed

lemma report_fields:
  assumes "getFrequentlySoldItems \<phi> now d = (200, Report w m y)"
    and "aggregate now (saleStore d) = (rw, rm, ry)"
    and "(rows, es) \<in> {(rw, w), (rm, m), (ry, y)}"
  shows "map entry_id es = map row_item_id rows \<and> map totalQuantitySold es = map row_total rows"
proof -
  have "formatResults (populate d rows) = Inr es"
    using report_ok[OF assms(1,2)] assms(3) by auto
  then show ?thesis by (rule formatResults_fields)
qed

text \<open>
  C5, as the code has it. A sale dated 40 days before the clock reading is in the yearly list
  of the report only: the monthly list, like the weekly one, is empty.
\<close>

theorem report_40_days_not_monthly:
  "date sale40 = valueOf now0 - 40 * msPerDay
   \<and> getFrequentlySoldItems no_faults now0 (db0\<lparr>saleStore := [(1, sale40)]\<rparr>)
       = (200, Report [] [] [entryA 4 ''Ana''])"
  by code_simp

text \<open>
  C5, amended. Take a sale history and one line item of one of its sales, and compare the
  three windows that the aggregation returns for it with those it returns for the history
  without that line item. If the sale is dated at or after the weekly bound, each of the
  three windows has a row for the (item, user) pair of the line item, and its total is what
  the pair has in that window without the line item, plus the line item's quantity. If the
  sale is dated 40 days before now, the weekly and the monthly windows are what they are
  without the line item, and only the yearly window has the row with the quantity added.
  No window has two rows for one pair, and in a report answered with 200 the three lists
  carry the totals of the three windows, row by row.
\<close>

theorem report_windows:
  assumes "0 \<le> getMonth now" and "getMonth now \<le> 11"
    and "sales = before @ [(sid, s\<lparr>items := xs @ [li] @ ys\<rparr>)] @ after"
    and "without = before @ [(sid, s\<lparr>items := xs @ ys\<rparr>)] @ after"
    and "aggregate now sales = (weekly, monthly, yearly)"
    and "aggregate now without = (weekly', monthly', yearly')"
  shows "(pastWeek now \<le> date s \<longrightarrow>
            \<lparr>row_item_id = item_id li, row_user_id = user_id s,
              row_total = total_of_rows weekly' (item_id li) (user_id s) + quantity li\<rparr>
              \<in> set weekly
          \<and> \<lparr>row_item_id = item_id li, row_user_id = user_id s,
              row_total = total_of_rows monthly' (item_id li) (user_id s) + quantity li\<rparr>
              \<in> set monthly
          \<and> \<lparr>row_item_id = item_id li, row_user_id = user_id s,
              row_total = total_of_rows yearly' (item_id li) (user_id s) + quantity li\<rparr>
              \<in> set yearly)
       \<and> (date s = valueOf now - 40 * msPerDay \<longrightarrow>
            weekly = weekly' \<and> monthly = monthly'
          \<and> \<lparr>row_item_id = item_id li, row_user_id = user_id s,
              row_total = total_of_rows yearly' (item_id li) (user_id s) + quantity li\<rparr>
              \<in> set yearly)
       \<and> distinct (map (\<lambda>r. (row_item_id r, row_user_id r)) weekly)
       \<and> distinct (map (\<lambda>r. (row_item_id r, row_user_id r)) monthly)
       \<and> distinct (map (\<lambda>r. (row_item_id r, row_user_id r)) yearly)
       \<and> (\<forall>\<phi> d w m y.
            saleStore d = sales \<and> getFrequentlySoldItems \<phi> now d = (200, Report w m y) \<longrightarrow>
              map totalQuantitySold w = map row_total weekly
            \<and> map totalQuantitySold m = map row_total monthly
            \<and> map totalQuantitySold y = map row_total yearly)"
proof -
  have m: "valueOf now - 2678400000 \<le> pastMonth now" "pastMonth now \<le> valueOf now - 2419200000"
    using pastMonth_bounds[OF assms(1,2)] by (simp_all add: msPerDay_def)
  have y: "valueOf now - 31622400000 \<le> pastYear now" "pastYear now \<le> valueOf now - 31536000000"
    using pastYear_bounds[OF assms(1,2)] by (simp_all add: msPerDay_def)
  have w7: "pastWeek now = valueOf now - 604800000"
    by (simp add: pastWeek_eq msPerDay_def)
  have rows: "weekly = map project_row (window_groups (pastWeek now) sales)"
    "monthly = map project_row (window_groups (pastMonth now) sales)"
    "yearly = map project_row (window_groups (pastYear now) sales)"
    using assms(5) by (simp_all add: aggregate_windows)
  have rows': "weekly' = map project_row (window_groups (pastWeek now) without)"
    "monthly' = map project_row (window_groups (pastMonth now) without)"
    "yearly' = map project_row (window_groups (pastYear now) without)"
    using assms(6) by (simp_all add: aggregate_windows)
  have gain: "\<lparr>row_item_id = item_id li, row_user_id = user_id s,
        row_total = total_of_rows (map project_row (window_groups bound without))
          (item_id li) (user_id s) + quantity li\<rparr>
      \<in> set (map project_row (window_groups bound sales))" if "bound \<le> date s" for bound
    unfolding assms(3,4) using that by (rule window_row_with_line_item)
  have same: "map project_row (window_groups bound sales)
      = map project_row (window_groups bound without)" if "date s < bound" for bound
    unfolding assms(3,4) using that by (rule arg_cong[OF window_without_line_item])
  have recent: "\<lparr>row_item_id = item_id li, row_user_id = user_id s,
              row_total = total_of_rows weekly' (item_id li) (user_id s) + quantity li\<rparr>
              \<in> set weekly
          \<and> \<lparr>row_item_id = item_id li, row_user_id = user_id s,
              row_total = total_of_rows monthly' (item_id li) (user_id s) + quantity li\<rparr>
              \<in> set monthly
          \<and> \<lparr>row_item_id = item_id li, row_user_id = user_id s,
              row_total = total_of_rows yearly' (item_id li) (user_id s) + quantity li\<rparr>
              \<in> set yearly" if w: "pastWeek now \<le> date s"
  proof -
    have b: "pastMonth now \<le> date s" "pastYear now \<le> date s"
      using w w7 m y by linarith+
    show ?thesis unfolding rows rows' using gain[OF w] gain[OF b(1)] gain[OF b(2)] by blast
  qed
  have old: "weekly = weekly' \<and> monthly = monthly'
          \<and> \<lparr>row_item_id = item_id li, row_user_id = user_id s,
              row_total = total_of_rows yearly' (item_id li) (user_id s) + quantity li\<rparr>
              \<in> set yearly" if "date s = valueOf now - 40 * msPerDay"
  proof -
    have d: "date s = valueOf now - 3456000000" using that by (simp add: msPerDay_def)
    have lw: "date s < pastWeek now" using d w7 by linarith
    have lm: "date s < pastMonth now" using d m by linarith
    have ly: "pastYear now \<le> date s" using d y by linarith
    show ?thesis unfolding rows rows' using same[OF lw] same[OF lm] gain[OF ly] by blast
  qed
  have keys: "distinct (map (\<lambda>r. (row_item_id r, row_user_id r)) weekly)"
    "distinct (map (\<lambda>r. (row_item_id r, row_user_id r)) monthly)"
    "distinct (map (\<lambda>r. (row_item_id r, row_user_id r)) yearly)"
    unfolding rows by (rule window_keys_distinct)+
  have answer: "map totalQuantitySold w = map row_total weekly
            \<and> map totalQuantitySold m' = map row_total monthly
            \<and> map totalQuantitySold y' = map row_total yearly"
    if "saleStore d = sales \<and> getFrequentlySoldItems \<phi> now d = (200, Report w m' y')"
    for \<phi> d w m' y'
  proof -
    from that have ok: "getFrequentlySoldItems \<phi> now d = (200, Report w m' y')"
      and agg: "aggregate now (saleStore d) = (weekly, monthly, yearly)"
      using assms(5) by simp_all
    show ?thesis
      using report_fields[OF ok agg, of weekly w] report_fields[OF ok agg, of monthly m']
        report_fields[OF ok agg, of yearly y']
      by simp
  qed
  from recent old keys answer show ?thesis by blast
qed

theorem report_windows_witness:
  "aggregate now0 [(1, sale3)] =
     ([\<lparr>row_item_id = 1, row_user_id = 7, row_total = 4\<rparr>],
      [\<lparr>row_item_id = 1, row_user_id = 7, row_total = 4\<rparr>],
      [\<lparr>row_item_id = 1, row_user_id = 7, row_total = 4\<rparr>])
   \<and> aggregate now0 [(1, sale40)] =
     ([], [], [\<lparr>row_item_id = 1, row_user_id = 7, row_total = 4\<rparr>])
   \<and> aggregate now0 [(1, sale3\<lparr>items := []\<rparr>)] = ([], [], [])
   \<and> aggregate now0 [(1, sale40\<lparr>items := []\<rparr>)] = ([], [], [])
   \<and> pastWeek now0 \<le> date sale3
   \<and> date sale40 = valueOf now0 - 40 * msPerDay
   \<and> \<lparr>row_item_id = 1, row_user_id = 7, row_total = 0 + 4\<rparr>
        \<in> set [\<lparr>row_item_id = 1, row_user_id = 7, row_total = 4\<rparr>]
   \<and> getFrequentlySoldItems no_faults now0 (db0\<lparr>saleStore := [(1, sale3)]\<rparr>)
        = (200, Report [entryA 4 ''Ana''] [entryA 4 ''Ana''] [entryA 4 ''Ana''])
   \<and> map totalQuantitySold [entryA 4 ''Ana'']
        = map row_total [\<lparr>row_item_id = 1, row_user_id = 7, row_total = 4\<rparr>]"
proof -
  let ?r = "\<lparr>row_item_id = 1, row_user_id = 7, row_total = 4\<rparr>"
  let ?li = "\<lparr>item_id = 1, quantity = 4\<rparr>"
  have m: "0 \<le> getMonth now0" "getMonth now0 \<le> 11" by (simp_all add: now0_def)
  have s3: "[(1, sale3)] = [] @ [(1, sale3\<lparr>items := [] @ [?li] @ []\<rparr>)] @ []"
    and s40: "[(1, sale40)] = [] @ [(1, sale40\<lparr>items := [] @ [?li] @ []\<rparr>)] @ []"
    by (simp_all add: sale_defs)
  have e3: "[(1::nat, sale3\<lparr>items := []\<rparr>)] = [] @ [(1, sale3\<lparr>items := [] @ []\<rparr>)] @ []"
    and e40: "[(1::nat, sale40\<lparr>items := []\<rparr>)] = [] @ [(1, sale40\<lparr>items := [] @ []\<rparr>)] @ []"
    by simp_all
  have a3: "aggregate now0 [(1, sale3)] = ([?r], [?r], [?r])" by code_simp
  have a40: "aggregate now0 [(1, sale40)] = ([], [], [?r])" by code_simp
  have b3: "aggregate now0 [(1, sale3\<lparr>items := []\<rparr>)] = ([], [], [])" by code_simp
  have b40: "aggregate now0 [(1, sale40\<lparr>items := []\<rparr>)] = ([], [], [])" by code_simp
  have d3: "pastWeek now0 \<le> date sale3" by (simp add: now0_dates sale_dates)
  have d40: "date sale40 = valueOf now0 - 40 * msPerDay" by (simp add: sale40_def)
  have r: "getFrequentlySoldItems no_faults now0 (db0\<lparr>saleStore := [(1, sale3)]\<rparr>)
      = (200, Report [entryA 4 ''Ana''] [entryA 4 ''Ana''] [entryA 4 ''Ana''])"
    by code_simp
  note t3 = report_windows[OF m s3 e3 a3 b3] and t40 = report_windows[OF m s40 e40 a40 b40]
  have in3: "\<lparr>row_item_id = item_id ?li, row_user_id = user_id sale3,
      row_total = total_of_rows [] (item_id ?li) (user_id sale3) + quantity ?li\<rparr> \<in> set [?r]"
    using t3 d3 by blast
  then have in3': "\<lparr>row_item_id = 1, row_user_id = 7, row_total = 0 + 4\<rparr> \<in> set [?r]"
    by (simp add: total_of_rows_def sale3_def)
  have "saleStore (db0\<lparr>saleStore := [(1, sale3)]\<rparr>) = [(1, sale3)]" by simp
  with t3 r have "map totalQuantitySold [entryA 4 ''Ana''] = map row_total [?r]" by blast
  with a3 a40 b3 b40 d3 d40 in3' r show ?thesis by blast
qed

text \<open>
  C6. If two sales by different users, both dated within one of the three windows that the
  aggregation returns, each have a line item for the same item, that window contains one
  row for each of the two (item, user) pairs, each with the quantity that user sold of the
  item in the window; no two rows of the window have the same pair; and in a report
  answered with 200 the list of that window has one entry per row, with the row's item and
  total.
\<close>

theorem report_groups_by_item_and_user:
  assumes "(sid1, s1) \<in> set sales" and "(sid2, s2) \<in> set sales"
    and "user_id s1 \<noteq> user_id s2"
    and "aggregate now sales = (weekly, monthly, yearly)"
    and "(bound, rows) \<in> {(pastWeek now, weekly), (pastMonth now, monthly), (pastYear now, yearly)}"
    and "bound \<le> date s1" and "bound \<le> date s2"
    and "li1 \<in> set (items s1)" and "li2 \<in> set (items s2)"
    and "item_id li1 = i" and "item_id li2 = i"
  shows "\<lparr>row_item_id = i, row_user_id = user_id s1,
           row_total = quantity_sold bound sales (i, user_id s1)\<rparr> \<in> set rows
       \<and> \<lparr>row_item_id = i, row_user_id = user_id s2,
           row_total = quantity_sold bound sales (i, user_id s2)\<rparr> \<in> set rows
       \<and> distinct (map (\<lambda>r. (row_item_id r, row_user_id r)) rows)
       \<and> (\<forall>\<phi> d w m y es.
            saleStore d = sales \<and> getFrequentlySoldItems \<phi> now d = (200, Report w m y)
            \<and> (rows, es) \<in> {(weekly, w), (monthly, m), (yearly, y)} \<longrightarrow>
              map entry_id es = map row_item_id rows
            \<and> map totalQuantitySold es = map row_total rows)"
proof -
  have all: "weekly = facet (pastWeek now) (unwind sales)"
    "monthly = facet (pastMonth now) (unwind sales)"
    "yearly = facet (pastYear now) (unwind sales)"
    using assms(4) by (simp_all add: aggregate_def Let_def)
  have rows: "rows = facet bound (unwind sales)"
    using assms(5) all by auto
  have two: "\<lparr>row_item_id = i, row_user_id = user_id s1,
           row_total = quantity_sold bound sales (i, user_id s1)\<rparr> \<in> set rows
       \<and> \<lparr>row_item_id = i, row_user_id = user_id s2,
           row_total = quantity_sold bound sales (i, user_id s2)\<rparr> \<in> set rows
       \<and> distinct (map (\<lambda>r. (row_item_id r, row_user_id r)) rows)"
    unfolding rows
    by (rule facet_rows_by_item_and_user[OF assms(1,2,3) assms(6,7,8,9,10,11)])
  have answer: "map entry_id es = map row_item_id rows
            \<and> map totalQuantitySold es = map row_total rows"
    if "saleStore d = sales \<and> getFrequentlySoldItems \<phi> now d = (200, Report w m y)
            \<and> (rows, es) \<in> {(weekly, w), (monthly, m), (yearly, y)}"
    for \<phi> d w m y es
  proof -
    from that have ok: "getFrequentlySoldItems \<phi> now d = (200, Report w m y)"
      and agg: "aggregate now (saleStore d) = (weekly, monthly, yearly)"
      and pick: "(rows, es) \<in> {(weekly, w), (monthly, m), (yearly, y)}"
      using assms(4) by simp_all
    show ?thesis using ok agg pick by (rule report_fields)
  qed
  from two answer show ?thesis by blast
qed

theorem report_groups_by_item_and_user_witness:
  "aggregate now0 (saleStore db_report) =
     ([\<lparr>row_item_id = 1, row_user_id = 7, row_total = 4\<rparr>,
       \<lparr>row_item_id = 1, row_user_id = 8, row_total = 2\<rparr>],
      [\<lparr>row_item_id = 1, row_user_id = 7, row_total = 4\<rparr>,
       \<lparr>row_item_id = 1, row_user_id = 8, row_total = 2\<rparr>],
      [\<lparr>row_item_id = 1, row_user_id = 7, row_total = 4\<rparr>,
       \<lparr>row_item_id = 1, row_user_id = 8, row_total = 2\<rparr>])
   \<and> quantity_sold (pastWeek now0) (saleStore db_report) (1, 7) = 4
   \<and> quantity_sold (pastWeek now0) (saleStore db_report) (1, 8) = 2
   \<and> \<lparr>row_item_id = 1, row_user_id = 7, row_total = 4\<rparr>
        \<in> set [\<lparr>row_item_id = 1, row_user_id = 7, row_total = 4\<rparr>,
                \<lparr>row_item_id = 1, row_user_id = 8, row_total = 2\<rparr>]
   \<and> \<lparr>row_item_id = 1, row_user_id = 8, row_total = 2\<rparr>
        \<in> set [\<lparr>row_item_id = 1, row_user_id = 7, row_total = 4\<rparr>,
                \<lparr>row_item_id = 1, row_user_id = 8, row_total = 2\<rparr>]
   \<and> getFrequentlySoldItems no_faults now0 db_report
        = (200, Report [entryA 4 ''Ana'', entryA 2 ''Unknown'']
             [entryA 4 ''Ana'', entryA 2 ''Unknown''] [entryA 4 ''Ana'', entryA 2 ''Unknown''])
   \<and> map totalQuantitySold [entryA 4 ''Ana'', entryA 2 ''Unknown''] = [4, 2]
   \<and> map entry_id [entryA 4 ''Ana'', entryA 2 ''Unknown''] = [1, 1]"
proof -
  let ?sales = "saleStore db_report"
  let ?rows = "[\<lparr>row_item_id = 1, row_user_id = 7, row_total = 4\<rparr>,
                \<lparr>row_item_id = 1, row_user_id = 8, row_total = 2\<rparr>]"
  let ?es = "[entryA 4 ''Ana'', entryA 2 ''Unknown'']"
  have mem: "(1, sale3) \<in> set ?sales" "(2, sale3_other) \<in> set ?sales"
    by (simp_all add: db_report_def)
  have users: "user_id sale3 \<noteq> user_id sale3_other" by (simp add: sale_defs)
  have a: "aggregate now0 ?sales = (?rows, ?rows, ?rows)" by code_simp
  have pick: "(pastWeek now0, ?rows)
      \<in> {(pastWeek now0, ?rows), (pastMonth now0, ?rows), (pastYear now0, ?rows)}"
    by simp
  have dates: "pastWeek now0 \<le> date sale3" "pastWeek now0 \<le> date sale3_other"
    by (simp_all add: now0_dates sale_dates)
  have lis: "\<lparr>item_id = 1, quantity = 4\<rparr> \<in> set (items sale3)"
    "\<lparr>item_id = 1, quantity = 2\<rparr> \<in> set (items sale3_other)"
    "item_id \<lparr>item_id = 1, quantity = 4\<rparr> = 1" "item_id \<lparr>item_id = 1, quantity = 2\<rparr> = 1"
    by (simp_all add: sale_defs)
  have q: "quantity_sold (pastWeek now0) ?sales (1, 7) = 4"
    "quantity_sold (pastWeek now0) ?sales (1, 8) = 2"
    by code_simp+
  have u: "user_id sale3 = 7" "user_id sale3_other = 8" by (simp_all add: sale_defs)
  have r: "getFrequentlySoldItems no_faults now0 db_report = (200, Report ?es ?es ?es)"
    by code_simp
  note t = report_groups_by_item_and_user[OF mem users a pick dates lis]
  have rows: "\<lparr>row_item_id = 1, row_user_id = 7, row_total = 4\<rparr> \<in> set ?rows"
    "\<lparr>row_item_id = 1, row_user_id = 8, row_total = 2\<rparr> \<in> set ?rows"
    using t q u by simp_all
  have "(?rows, ?es) \<in> {(?rows, ?es), (?rows, ?es), (?rows, ?es)}" by simp
  with t r have "map entry_id ?es = map row_item_id ?rows
      \<and> map totalQuantitySold ?es = map row_total ?rows"
    by blast
  then have fields: "map totalQuantitySold ?es = [4, 2]" "map entry_id ?es = [1, 1]"
    by simp_all
  from a q rows r fields show ?thesis by blast
qed

text \<open>
  C7, as the code has it. A user record with an empty name exists, and the entry's
  \<^verbatim>\<open>user_name\<close> is "Unknown", not that name.
\<close>

theorem report_empty_name_is_unknown:
  "userStore (db0\<lparr>userStore := [7 \<mapsto> \<lparr>name = ''''\<rparr>], saleStore := [(1, sale3)]\<rparr>) 7
     = Some \<lparr>name = ''''\<rparr>
   \<and> getFrequentlySoldItems no_faults now0
        (db0\<lparr>userStore := [7 \<mapsto> \<lparr>name = ''''\<rparr>], saleStore := [(1, sale3)]\<rparr>)
     = (200, Report [entryA 4 ''Unknown''] [entryA 4 ''Unknown''] [entryA 4 ''Unknown''])
   \<and> user_name (entryA 4 ''Unknown'') \<noteq> name \<lparr>name = ''''\<rparr>"
  by code_simp

text \<open>
  C7, amended. In a report answered with 200, each list has one entry per aggregated row, in
  order, and the entry's \<^verbatim>\<open>user_name\<close> is "Unknown" when the user store has no record for
  the row's user id or the record's name is empty, and the user's name otherwise.
\<close>

theorem report_user_name:
  assumes "getFrequentlySoldItems \<phi> now d = (200, Report w m y)"
    and "aggregate now (saleStore d) = (rw, rm, ry)"
    and "(rows, es) \<in> {(rw, w), (rm, m), (ry, y)}"
    and "n < length rows"
  shows "length es = length rows
       \<and> user_name (es ! n) =
           (case userStore d (row_user_id (rows ! n)) of
              None \<Rightarrow> ''Unknown''
            | Some u \<Rightarrow> if name u = [] then ''Unknown'' else name u)"
proof -
  have "formatResults (populate d rows) = Inr es"
    using report_ok[OF assms(1,2)] assms(3) by auto
  from formatResults_Inr[OF this] assms(4)
  have len: "length es = length rows"
    and e: "format_entry (populate d rows ! n) = Inr (es ! n)"
    by (simp_all add: populate_def)
  have "populate d rows ! n = populate_row d (rows ! n)"
    using assms(4) by (simp add: populate_def)
  with e have "format_entry (populate_row d (rows ! n)) = Inr (es ! n)" by simp
  from format_entry_user_name[OF this] len show ?thesis by simp
qed

theorem report_user_name_witness:
  "getFrequentlySoldItems no_faults now0 db_report
     = (200, Report [entryA 4 ''Ana'', entryA 2 ''Unknown''] [entryA 4 ''Ana'', entryA 2 ''Unknown'']
          [entryA 4 ''Ana'', entryA 2 ''Unknown''])
   \<and> userStore db_report 7 = Some \<lparr>name = ''Ana''\<rparr>
   \<and> userStore db_report 8 = None
   \<and> user_name ([entryA 4 ''Ana'', entryA 2 ''Unknown''] ! 0) = ''Ana''
   \<and> user_name ([entryA 4 ''Ana'', entryA 2 ''Unknown''] ! 1) = ''Unknown''"
proof -
  let ?rows = "[\<lparr>row_item_id = 1, row_user_id = 7, row_total = 4\<rparr>,
                \<lparr>row_item_id = 1, row_user_id = 8, row_total = 2\<rparr>]"
  let ?es = "[entryA 4 ''Ana'', entryA 2 ''Unknown'']"
  have r: "getFrequentlySoldItems no_faults now0 db_report = (200, Report ?es ?es ?es)"
    by code_simp
  have a: "aggregate now0 (saleStore db_report) = (?rows, ?rows, ?rows)"
    by code_simp
  have p: "(?rows, ?es) \<in> {(?rows, ?es), (?rows, ?es), (?rows, ?es)}" by simp
  have u: "userStore db_report 7 = Some \<lparr>name = ''Ana''\<rparr>" "userStore db_report 8 = None"
    by (simp_all add: db_report_def db0_def)
  from report_user_name[OF r a p, of 0] report_user_name[OF r a p, of 1] r u
  show ?thesis by simp
qed

text \<open>
  C10. If a row of any of the three windows has an item id with no item record, the report
  is answered with 500: with the message of the store call that threw, if one did, and
  otherwise with the message of reading \<^verbatim>\<open>_id\<close> on null. Missing items have no fallback.
\<close>

theorem report_missing_item:
  assumes "aggregate now (saleStore d) = (rw, rm, ry)"
    and "r \<in> set rw \<union> set rm \<union> set ry"
    and "itemStore d (row_item_id r) = None"
  shows "getFrequentlySoldItems \<phi> now d =
     (500, Message
        (case \<phi> 0 of Some e \<Rightarrow> e | None \<Rightarrow>
        (case \<phi> 1 of Some e \<Rightarrow> e | None \<Rightarrow>
        (case \<phi> 2 of Some e \<Rightarrow> e | None \<Rightarrow>
        (case \<phi> 3 of Some e \<Rightarrow> e | None \<Rightarrow> null_deref)))))"
proof -
  have miss: "p_item (populate_row d r) = None"
    using assms(3) by (simp add: populate_row_def)
  have fail: "formatResults (populate d rows) = Inl null_deref" if "r \<in> set rows" for rows
  proof -
    have "populate_row d r \<in> set (populate d rows)" using that by (simp add: populate_def)
    then show ?thesis using miss by (rule formatResults_missing)
  qed
  have inl: "x = null_deref" if "formatResults (populate d rows) = Inl x" for rows x
    using that by (rule formatResults_Inl)
  consider "r \<in> set rw" | "r \<in> set rm" | "r \<in> set ry" using assms(2) by blast
  then show ?thesis
  proof cases
    case 1
    show ?thesis using assms(1) fail[OF 1]
      by (simp add: getFrequentlySoldItems_def split: option.splits)
  next
    case 2
    show ?thesis using assms(1) fail[OF 2] inl[of rw]
      by (auto simp: getFrequentlySoldItems_def split: option.splits sum.splits)
  next
    case 3
    show ?thesis using assms(1) fail[OF 3] inl[of rw] inl[of rm]
      by (auto simp: getFrequentlySoldItems_def split: option.splits sum.splits)
  qed
qed

theorem report_missing_item_witness:
  "itemStore db0 9 = None
   \<and> aggregate now0 [(1, sale_dangling)] =
       ([\<lparr>row_item_id = 9, row_user_id = 7, row_total = 1\<rparr>],
        [\<lparr>row_item_id = 9, row_user_id = 7, row_total = 1\<rparr>],
        [\<lparr>row_item_id = 9, row_user_id = 7, row_total = 1\<rparr>])
   \<and> getFrequentlySoldItems no_faults now0 (db0\<lparr>saleStore := [(1, sale_dangling)]\<rparr>)
       = (500, Message null_deref)"
proof -
  let ?r = "\<lparr>row_item_id = 9, row_user_id = 7, row_total = 1\<rparr>"
  let ?d = "db0\<lparr>saleStore := [(1, sale_dangling)]\<rparr>"
  have a: "aggregate now0 [(1, sale_dangling)] = ([?r], [?r], [?r])"
    by code_simp
  then have a': "aggregate now0 (saleStore ?d) = ([?r], [?r], [?r])" by simp
  have i: "?r \<in> set [?r] \<union> set [?r] \<union> set [?r]" by simp
  have n: "itemStore ?d (row_item_id ?r) = None" by (simp add: db0_def)
  have n0: "itemStore db0 9 = None" by (simp add: db0_def)
  from report_missing_item[OF a' i n, of no_faults] a n0 show ?thesis
    by (simp add: no_faults_def)
qed

end
